theory Spec2Isabelle
  imports Complex_Main
begin

section \<open>Data model\<close>

text \<open>
  The editor keeps one mono recording (\<open>data\<close>, sampled at \<open>sampleRate\<close>) and a list of
  timeline markers. Times and sample values are C++ \<open>double\<close>/\<open>float\<close> in the program;
  here they are exact reals, so rounding error is not part of the model, except in
  the section on double arithmetic, where the round trip between samples and times is
  modelled with rounding and with the range of \<open>int\<close>. Elsewhere C++ \<open>int\<close>
  values are mathematical integers: every index and sample count is taken to fit
  32 bits, so no arithmetic wraps. \<open>sampleRate\<close> is an integer, the decoder's
  \<open>sample_rate\<close>; it is the argument \<open>sr\<close> of the functions below, and the
  theorems that divide by it assume it positive.
\<close>

record Marker =
  sample :: int
  noteOf :: real
  dTime :: real
  pitchBend :: real

text \<open>\<open>static_cast<int>\<close> of a double: truncation toward zero.\<close>

definition truncInt :: "real \<Rightarrow> int" where
  "truncInt x = (if 0 \<le> x then \<lfloor>x\<rfloor> else \<lceil>x\<rceil>)"

section \<open>The warp map: \<open>App::sample2Time\<close>, \<open>App::time2Sample\<close>, \<open>App::duration\<close>\<close>

text \<open>
  The marker walk of \<open>sample2Time\<close>: \<open>prevSample\<close> and \<open>prevTime\<close> are the loop
  variables, the empty list is the code after the loop.
\<close>

fun sample2TimeLoop :: "int \<Rightarrow> int \<Rightarrow> int \<Rightarrow> real \<Rightarrow> Marker list \<Rightarrow> real" where
  "sample2TimeLoop sr val prevSample prevTime [] =
     prevTime + real_of_int (val - prevSample) / real_of_int sr"
| "sample2TimeLoop sr val prevSample prevTime (m # ms) =
     (let rightTime = prevTime + real_of_int (sample m - prevSample) / real_of_int sr + dTime m
      in if val > prevSample \<and> val \<le> sample m
         then prevTime + real_of_int (val - prevSample) * (rightTime - prevTime)
                / real_of_int (sample m - prevSample)
         else sample2TimeLoop sr val (sample m) rightTime ms)"

text \<open>\<open>sample2Time\<close> without its cache: the value the body computes.\<close>

definition sample2Time :: "int \<Rightarrow> Marker list \<Rightarrow> int \<Rightarrow> real" where
  "sample2Time sr ms val =
     (if val \<le> 0 then real_of_int val / real_of_int sr
      else sample2TimeLoop sr val 0 0 ms)"

text \<open>
  The marker walk of \<open>time2Sample\<close>; the result is still the \<open>double\<close> named
  \<open>ret\<close>, which the \<open>return\<close> then converts to \<open>int\<close>.
\<close>

fun time2SampleLoop :: "int \<Rightarrow> real \<Rightarrow> int \<Rightarrow> real \<Rightarrow> Marker list \<Rightarrow> real" where
  "time2SampleLoop sr val prevSample prevTime [] =
     real_of_int prevSample + (val - prevTime) * real_of_int sr"
| "time2SampleLoop sr val prevSample prevTime (m # ms) =
     (let rightTime = prevTime + real_of_int (sample m - prevSample) / real_of_int sr + dTime m
      in if val > prevTime \<and> val \<le> rightTime
         then real_of_int prevSample + (val - prevTime) * real_of_int (sample m - prevSample)
                / (rightTime - prevTime)
         else time2SampleLoop sr val (sample m) rightTime ms)"

text \<open>
  The value \<open>time2Sample\<close> computes when it does not answer from its cache. The
  function with the cache is \<open>time2SampleCached\<close> below.
\<close>

definition time2SampleUncached :: "int \<Rightarrow> Marker list \<Rightarrow> real \<Rightarrow> int" where
  "time2SampleUncached sr ms val =
     (if val \<le> 0 then truncInt (val * real_of_int sr)
      else truncInt (time2SampleLoop sr val 0 0 ms))"

text \<open>
  \<open>duration\<close> is \<open>sample2Time (data.size() - 1)\<close>; \<open>n\<close> is \<open>data.size()\<close>. For an
  empty buffer the unsigned \<open>0 - 1\<close> converts to the \<open>int\<close> \<open>-1\<close>.
\<close>

definition duration :: "int \<Rightarrow> Marker list \<Rightarrow> nat \<Rightarrow> real" where
  "duration sr ms n = sample2Time sr ms (int n - 1)"

text \<open>
  A hypothesis for the warp map: every segment of the walk has a non-negative edited
  length \<open>(sample - prevSample) / sampleRate + dTime\<close>.
\<close>

fun segmentsNonneg :: "int \<Rightarrow> int \<Rightarrow> Marker list \<Rightarrow> bool" where
  "segmentsNonneg sr prevSample [] = True"
| "segmentsNonneg sr prevSample (m # ms) =
     (0 \<le> real_of_int (sample m - prevSample) / real_of_int sr + dTime m
      \<and> segmentsNonneg sr (sample m) ms)"

section \<open>The pitch-bend curve: \<open>App::time2PitchBend\<close>\<close>

text \<open>
  The marker walk of \<open>time2PitchBend\<close>. \<open>dur\<close> is the value of \<open>duration()\<close>, which
  the code after the loop reads twice; the empty list is that code.
\<close>

fun time2PitchBendLoop ::
  "int \<Rightarrow> real \<Rightarrow> real \<Rightarrow> int \<Rightarrow> real \<Rightarrow> real \<Rightarrow> Marker list \<Rightarrow> real" where
  "time2PitchBendLoop sr dur val prevSample prevTime prevPitchBend [] =
     (if val > dur then 0
      else prevPitchBend + (val - prevTime) * (0 - prevPitchBend) / (dur - prevTime))"
| "time2PitchBendLoop sr dur val prevSample prevTime prevPitchBend (m # ms) =
     (let rightTime = prevTime + real_of_int (sample m - prevSample) / real_of_int sr + dTime m
      in if val > prevTime \<and> val \<le> rightTime
         then prevPitchBend + (val - prevTime) * (pitchBend m - prevPitchBend)
                / (rightTime - prevTime)
         else time2PitchBendLoop sr dur val (sample m) rightTime (pitchBend m) ms)"

text \<open>
  The value \<open>time2PitchBend\<close> computes when it does not answer from its cache;
  \<open>n\<close> is \<open>data.size()\<close>. The function with the cache is
  \<open>time2PitchBendCached\<close> below.
\<close>

definition time2PitchBendUncached :: "int \<Rightarrow> Marker list \<Rightarrow> nat \<Rightarrow> real \<Rightarrow> real" where
  "time2PitchBendUncached sr ms n val =
     (if val \<le> 0 then 0
      else time2PitchBendLoop sr (duration sr ms n) val 0 0 0 ms)"

text \<open>
  The edited times of the markers, in list order: the \<open>rightTime\<close> values that each
  of the three walks accumulates from \<open>prevSample\<close> and \<open>prevTime\<close>.
\<close>

fun markerTimes :: "int \<Rightarrow> int \<Rightarrow> real \<Rightarrow> Marker list \<Rightarrow> real list" where
  "markerTimes sr prevSample prevTime [] = []"
| "markerTimes sr prevSample prevTime (m # ms) =
     (let rightTime = prevTime + real_of_int (sample m - prevSample) / real_of_int sr + dTime m
      in rightTime # markerTimes sr (sample m) rightTime ms)"

text \<open>
  The knots of the curve: time 0 with bend 0, then every marker's edited time with
  its \<open>pitchBend\<close>.
\<close>

definition knotTimes :: "int \<Rightarrow> Marker list \<Rightarrow> real list" where
  "knotTimes sr ms = 0 # markerTimes sr 0 0 ms"

definition knotBends :: "Marker list \<Rightarrow> real list" where
  "knotBends ms = 0 # map pitchBend ms"

section \<open>The three caches\<close>

text \<open>
  \<open>sample2Time\<close>, \<open>time2Sample\<close> and \<open>time2PitchBend\<close> are \<open>const\<close> member functions
  that read and fill three mutable maps. The state they touch is this record; each
  function takes it and returns it updated. The maps are declared in \<open>app.hpp\<close>;
  whichever number type \<open>time2SampleCache\<close> stores, a hit returns the \<open>int\<close>
  conversion of the value computed on the miss, which is what is stored here.
\<close>

record Caches =
  sample2TimeCache :: "int \<rightharpoonup> real"
  time2SampleCache :: "int \<rightharpoonup> int"
  time2PitchBendCache :: "int \<rightharpoonup> real"

text \<open>The warp-map part of \<open>App::invalidateCache\<close>: all three maps are cleared.\<close>

definition emptyCaches :: Caches where
  "emptyCaches =
     \<lparr>sample2TimeCache = Map.empty, time2SampleCache = Map.empty,
      time2PitchBendCache = Map.empty\<rparr>"


definition sample2TimeCached :: "int \<Rightarrow> Marker list \<Rightarrow> int \<Rightarrow> Caches \<Rightarrow> real \<times> Caches" where
  "sample2TimeCached sr ms val c =
     (if val \<le> 0 then (real_of_int val / real_of_int sr, c)
      else case sample2TimeCache c val of
             Some r \<Rightarrow> (r, c)
           | None \<Rightarrow>
               (let ret = sample2TimeLoop sr val 0 0 ms
                in (ret, c\<lparr>sample2TimeCache := (sample2TimeCache c)(val \<mapsto> ret)\<rparr>)))"

definition time2SampleCached :: "int \<Rightarrow> Marker list \<Rightarrow> real \<Rightarrow> Caches \<Rightarrow> int \<times> Caches" where
  "time2SampleCached sr ms val c =
     (if val \<le> 0 then (truncInt (val * real_of_int sr), c)
      else case time2SampleCache c (truncInt (val * real_of_int sr)) of
             Some r \<Rightarrow> (r, c)
           | None \<Rightarrow>
               (let ret = truncInt (time2SampleLoop sr val 0 0 ms)
                in (ret, c\<lparr>time2SampleCache :=
                             (time2SampleCache c)(truncInt (val * real_of_int sr) \<mapsto> ret)\<rparr>)))"

definition durationCached :: "int \<Rightarrow> Marker list \<Rightarrow> nat \<Rightarrow> Caches \<Rightarrow> real \<times> Caches" where
  "durationCached sr ms n c = sample2TimeCached sr ms (int n - 1) c"

text \<open>
  The \<open>for\<close> loop of \<open>time2PitchBend\<close> alone: it either returns from inside the loop
  (\<open>Inl ret\<close>) or leaves the loop with the last \<open>prevTime\<close> and \<open>prevPitchBend\<close>.
\<close>

fun time2PitchBendWalk ::
  "int \<Rightarrow> real \<Rightarrow> int \<Rightarrow> real \<Rightarrow> real \<Rightarrow> Marker list \<Rightarrow> real + real \<times> real" where
  "time2PitchBendWalk sr val prevSample prevTime prevPitchBend [] =
     Inr (prevTime, prevPitchBend)"
| "time2PitchBendWalk sr val prevSample prevTime prevPitchBend (m # ms) =
     (let rightTime = prevTime + real_of_int (sample m - prevSample) / real_of_int sr + dTime m
      in if val > prevTime \<and> val \<le> rightTime
         then Inl (prevPitchBend + (val - prevTime) * (pitchBend m - prevPitchBend)
                     / (rightTime - prevTime))
         else time2PitchBendWalk sr val (sample m) rightTime (pitchBend m) ms)"

text \<open>
  \<open>time2PitchBend\<close> with the caches. After the loop \<open>duration()\<close> is called once for
  the test and once more for the result, each call going through the sample-to-time
  cache; the early \<open>return 0\<close> stores nothing.
\<close>

definition time2PitchBendCached ::
  "int \<Rightarrow> Marker list \<Rightarrow> nat \<Rightarrow> real \<Rightarrow> Caches \<Rightarrow> real \<times> Caches" where
  "time2PitchBendCached sr ms n val c =
     (if val \<le> 0 then (0, c)
      else case time2PitchBendCache c (truncInt (val * real_of_int sr)) of
             Some r \<Rightarrow> (r, c)
           | None \<Rightarrow>
               (case time2PitchBendWalk sr val 0 0 0 ms of
                  Inl ret \<Rightarrow>
                    (ret, c\<lparr>time2PitchBendCache :=
                               (time2PitchBendCache c)(truncInt (val * real_of_int sr) \<mapsto> ret)\<rparr>)
                | Inr (prevTime, prevPitchBend) \<Rightarrow>
                    (let (d1, c1) = durationCached sr ms n c
                     in if val > d1 then (0, c1)
                        else (let (d2, c2) = durationCached sr ms n c1;
                                  ret = prevPitchBend
                                        + (val - prevTime) * (0 - prevPitchBend) / (d2 - prevTime)
                              in (ret, c2\<lparr>time2PitchBendCache :=
                                          (time2PitchBendCache c2)
                                            (truncInt (val * real_of_int sr) \<mapsto> ret)\<rparr>)))))"

text \<open>
  The caches agree with the current marker list: every stored answer is the uncached
  function's value at an input that has the entry's key. This holds after
  \<open>invalidateCache\<close>, which every marker edit calls.
\<close>

definition cachesValid :: "int \<Rightarrow> Marker list \<Rightarrow> nat \<Rightarrow> Caches \<Rightarrow> bool" where
  "cachesValid sr ms n c \<longleftrightarrow>
     (\<forall>k r. sample2TimeCache c k = Some r \<longrightarrow> r = sample2Time sr ms k)
     \<and> (\<forall>k r. time2SampleCache c k = Some r \<longrightarrow>
           (\<exists>t. 0 < t \<and> truncInt (t * real_of_int sr) = k \<and> r = time2SampleUncached sr ms t))
     \<and> (\<forall>k r. time2PitchBendCache c k = Some r \<longrightarrow>
           (\<exists>t. 0 < t \<and> truncInt (t * real_of_int sr) = k \<and> r = time2PitchBendUncached sr ms n t))"

section \<open>The warp map in double arithmetic\<close>

text \<open>
  Whether a round trip through \<open>sample2Time\<close> and \<open>time2Sample\<close> comes back to the
  same sample depends on the rounding of \<open>double\<close> arithmetic and on the range of
  \<open>int\<close>, so for it the two functions are modelled once more, with both. \<open>dbl\<close> rounds
  a real to the nearest \<open>double\<close> (53 significant bits, ties to even; the exponent
  range is not limited, which is exact for every value between \<open>2^-1022\<close> and
  \<open>2^1023\<close>).
\<close>

definition roundEven :: "real \<Rightarrow> int" where
  "roundEven y =
     (if y - real_of_int \<lfloor>y\<rfloor> < 1 / 2 then \<lfloor>y\<rfloor>
      else if 1 / 2 < y - real_of_int \<lfloor>y\<rfloor> then \<lfloor>y\<rfloor> + 1
      else if even \<lfloor>y\<rfloor> then \<lfloor>y\<rfloor> else \<lfloor>y\<rfloor> + 1)"

definition dblExp :: "real \<Rightarrow> int" where
  "dblExp x = \<lfloor>log 2 \<bar>x\<bar>\<rfloor>"

definition dbl :: "real \<Rightarrow> real" where
  "dbl x =
     (if x = 0 then 0
      else real_of_int (roundEven (x * 2 powr real_of_int (52 - dblExp x))) * 2 powr real_of_int (dblExp x - 52))"

text \<open>
  The four operations on doubles. Adding or subtracting zero is exact; every other
  result is the rounded exact result.
\<close>

definition dadd :: "real \<Rightarrow> real \<Rightarrow> real" where
  "dadd a b = (if a = 0 then b else if b = 0 then a else dbl (a + b))"

definition dsub :: "real \<Rightarrow> real \<Rightarrow> real" where
  "dsub a b = (if b = 0 then a else if a = 0 then - b else dbl (a - b))"

definition dmul :: "real \<Rightarrow> real \<Rightarrow> real" where
  "dmul a b = dbl (a * b)"

definition ddiv :: "real \<Rightarrow> real \<Rightarrow> real" where
  "ddiv a b = dbl (a / b)"

text \<open>
  \<open>static_cast<int>\<close> of a double into a 32-bit \<open>int\<close>: truncation toward zero when
  the truncated value fits, undefined behaviour (\<open>None\<close>) when it does not.
\<close>

definition toInt :: "real \<Rightarrow> int option" where
  "toInt x = (if - (2 ^ 31) - 1 < x \<and> x < 2 ^ 31 then Some (truncInt x) else None)"

text \<open>The marker walk of \<open>sample2Time\<close>, each operation rounded as the code orders it.\<close>

fun sample2TimeLoopDbl :: "int \<Rightarrow> int \<Rightarrow> int \<Rightarrow> real \<Rightarrow> Marker list \<Rightarrow> real" where
  "sample2TimeLoopDbl sr val prevSample prevTime [] =
     dadd prevTime (ddiv (real_of_int (val - prevSample)) (real_of_int sr))"
| "sample2TimeLoopDbl sr val prevSample prevTime (m # ms) =
     (let rightTime = dadd (dadd prevTime (ddiv (real_of_int (sample m - prevSample))
                                            (real_of_int sr))) (dTime m)
      in if val > prevSample \<and> val \<le> sample m
         then dadd prevTime
                (ddiv (dmul (real_of_int (val - prevSample)) (dsub rightTime prevTime))
                      (real_of_int (sample m - prevSample)))
         else sample2TimeLoopDbl sr val (sample m) rightTime ms)"

text \<open>\<open>sample2Time\<close> in double arithmetic, with its cache.\<close>

definition sample2TimeDbl :: "int \<Rightarrow> Marker list \<Rightarrow> int \<Rightarrow> Caches \<Rightarrow> real \<times> Caches" where
  "sample2TimeDbl sr ms val c =
     (if val \<le> 0 then (ddiv (real_of_int val) (real_of_int sr), c)
      else case sample2TimeCache c val of
             Some r \<Rightarrow> (r, c)
           | None \<Rightarrow>
               (let ret = sample2TimeLoopDbl sr val 0 0 ms
                in (ret, c\<lparr>sample2TimeCache := (sample2TimeCache c)(val \<mapsto> ret)\<rparr>)))"

fun time2SampleLoopDbl :: "int \<Rightarrow> real \<Rightarrow> int \<Rightarrow> real \<Rightarrow> Marker list \<Rightarrow> real" where
  "time2SampleLoopDbl sr val prevSample prevTime [] =
     dadd (real_of_int prevSample) (dmul (dsub val prevTime) (real_of_int sr))"
| "time2SampleLoopDbl sr val prevSample prevTime (m # ms) =
     (let rightTime = dadd (dadd prevTime (ddiv (real_of_int (sample m - prevSample))
                                            (real_of_int sr))) (dTime m)
      in if val > prevTime \<and> val \<le> rightTime
         then dadd (real_of_int prevSample)
                (ddiv (dmul (dsub val prevTime) (real_of_int (sample m - prevSample)))
                      (dsub rightTime prevTime))
         else time2SampleLoopDbl sr val (sample m) rightTime ms)"

text \<open>
  \<open>time2Sample\<close> in double arithmetic, with its cache. Each \<open>static_cast<int>\<close> can
  leave the range of \<open>int\<close>; the result is then \<open>None\<close>.
\<close>

definition time2SampleDbl ::
  "int \<Rightarrow> Marker list \<Rightarrow> real \<Rightarrow> Caches \<Rightarrow> (int \<times> Caches) option" where
  "time2SampleDbl sr ms val c =
     (if val \<le> 0 then map_option (\<lambda>k. (k, c)) (toInt (dmul val (real_of_int sr)))
      else case toInt (dmul val (real_of_int sr)) of
             None \<Rightarrow> None
           | Some key \<Rightarrow>
               (case time2SampleCache c key of
                  Some r \<Rightarrow> Some (r, c)
                | None \<Rightarrow>
                    (case toInt (time2SampleLoopDbl sr val 0 0 ms) of
                       None \<Rightarrow> None
                     | Some ret \<Rightarrow>
                         Some (ret, c\<lparr>time2SampleCache := (time2SampleCache c)(key \<mapsto> ret)\<rparr>))))"

text \<open>
  The two caches as queries on an empty marker list fill them: a sample's entry is its
  rounded time, a tick's entry is the tick.
\<close>

definition noMarkerCaches :: "int \<Rightarrow> Caches \<Rightarrow> bool" where
  "noMarkerCaches sr c \<longleftrightarrow>
     (\<forall>k r. sample2TimeCache c k = Some r \<longrightarrow> r = dbl (real_of_int k / real_of_int sr))
     \<and> (\<forall>k r. time2SampleCache c k = Some r \<longrightarrow> r = k)"

text \<open>
  The caches as the round trip of sample 27 at 48 kHz leaves them: the rounded time of
  sample 27, and tick 26.
\<close>

definition warmCaches :: Caches where
  "warmCaches =
     \<lparr>sample2TimeCache = [27 \<mapsto> 5188146770730811 / 2 ^ 63],
      time2SampleCache = [26 \<mapsto> 26], time2PitchBendCache = Map.empty\<rparr>"


section \<open>Grain size: \<open>App::estimateGrainSize\<close>\<close>

definition preferredGrainSize :: int where
  "preferredGrainSize = 1500"

definition GrainSpectrSize :: int where
  "GrainSpectrSize = 2 * 4096"

text \<open>C++ \<open>int\<close> division truncates toward zero.\<close>

definition cdiv :: "int \<Rightarrow> int \<Rightarrow> int" where
  "cdiv a b = sgn a * sgn b * (\<bar>a\<bar> div \<bar>b\<bar>)"

text \<open>
  The transform itself is the FFTW library's: \<open>output\<close> stands for \<open>spec.output\<close>
  after \<open>fftw_execute\<close> on the window that starts at \<open>start\<close>. A bin's weight is
  \<open>|re| + |im|\<close>.
\<close>

definition binValue :: "(int \<Rightarrow> complex) \<Rightarrow> int \<Rightarrow> real" where
  "binValue output i = \<bar>Re (output i)\<bar> + \<bar>Im (output i)\<bar>"

text \<open>
  One scan \<open>for (i = maxIndex; i < upper; ++i)\<close> with \<open>max\<close> reset to 0: the pair is
  \<open>(max, maxIndex)\<close>, and the result is the final \<open>maxIndex\<close>.
\<close>

definition scanStep :: "(int \<Rightarrow> complex) \<Rightarrow> int \<Rightarrow> real \<times> int \<Rightarrow> real \<times> int" where
  "scanStep output i acc =
     (if binValue output i > fst acc then (binValue output i, i) else acc)"

definition scanPeak :: "(int \<Rightarrow> complex) \<Rightarrow> int \<Rightarrow> int \<Rightarrow> int" where
  "scanPeak output maxIndex upper = snd (fold (scanStep output) [maxIndex..upper - 1] (0, maxIndex))"

definition peakBin :: "int \<Rightarrow> (int \<Rightarrow> complex) \<Rightarrow> int" where
  "peakBin sr output =
     (let maxIndex = scanPeak output (cdiv (20 * GrainSpectrSize) sr)
                       (cdiv (cdiv GrainSpectrSize 2) 4)
      in scanPeak output (maxIndex * 4 - cdiv maxIndex 4) (cdiv GrainSpectrSize 2))"

definition maxFreqOf :: "int \<Rightarrow> int \<Rightarrow> real" where
  "maxFreqOf sr maxIndex =
     max 1 (1 * real_of_int maxIndex * real_of_int sr / real_of_int GrainSpectrSize / 4)"

definition estimateGrainSize :: "int \<Rightarrow> (int \<Rightarrow> complex) \<Rightarrow> int" where
  "estimateGrainSize sr output =
     (let maxFreq = maxFreqOf sr (peakBin sr output)
      in truncInt (real_of_int \<lceil>1 * real_of_int preferredGrainSize * maxFreq / real_of_int sr\<rceil>
                     * real_of_int sr / maxFreq))"

section \<open>Grains\<close>

text \<open>
  A grain is stored in \<open>grains\<close> (a \<open>std::map\<close>) under its start sample, with the span
  \<open>data.data() + start\<close> of \<open>spanLen\<close> samples and its drift. The map is the list of
  its entries in key order.
\<close>

record Grain =
  startSample :: int
  spanLen :: int
  drift :: int

text \<open>\<open>grains.lower_bound(key)\<close>: the first entry whose key is not below \<open>key\<close>.\<close>

definition lower_bound :: "int \<Rightarrow> Grain list \<Rightarrow> Grain option" where
  "lower_bound key grains = find (\<lambda>g. key \<le> startSample g) grains"

section \<open>Segmentation into grains: \<open>App::preproc\<close>\<close>

text \<open>
  \<open>data\<close> is a \<open>std::vector<float>\<close> read with \<open>operator[]\<close>, which does not check
  its index. A read outside the vector is undefined behaviour in C++; the model stops
  there with \<open>OutOfBounds\<close>.
\<close>

datatype SegError = OutOfBounds

text \<open>
  \<open>data[idx] < 0 && data[idx + 1] >= 0\<close>: the second sample is read only when the
  first is negative.
\<close>

definition isZeroCrossing :: "real list \<Rightarrow> int \<Rightarrow> SegError + bool" where
  "isZeroCrossing data idx =
     (if idx < 0 \<or> int (length data) \<le> idx then Inl OutOfBounds
      else if data ! nat idx < 0
           then (if int (length data) \<le> idx + 1 then Inl OutOfBounds
                 else Inr (data ! nat (idx + 1) \<ge> 0))
           else Inr False)"

text \<open>
  The first search: \<open>for (i = 0; i < grainSize; ++i)\<close> with
  \<open>idx = start + grainSize + (i % 2 == 0 ? i / 2 : -i / 2)\<close>; the list holds the values
  of \<open>i\<close> still to try. \<open>Inr None\<close> is the loop ending with \<open>found == false\<close>.
\<close>

fun searchNear :: "real list \<Rightarrow> int \<Rightarrow> int \<Rightarrow> nat list \<Rightarrow> SegError + int option" where
  "searchNear data start grainSize [] = Inr None"
| "searchNear data start grainSize (i # rest) =
     (let idx = start + grainSize + (if i mod 2 = 0 then cdiv (int i) 2 else cdiv (- int i) 2)
      in case isZeroCrossing data idx of
           Inl e \<Rightarrow> Inl e
         | Inr True \<Rightarrow> Inr (Some idx)
         | Inr False \<Rightarrow> searchNear data start grainSize rest)"

text \<open>
  The fallback: \<open>for (i = start + grainSize + grainSize / 2; i < data.size() - 1; ++i)\<close>;
  the list holds the values of \<open>i\<close> still to try.
\<close>

fun searchForward :: "real list \<Rightarrow> int list \<Rightarrow> SegError + int option" where
  "searchForward data [] = Inr None"
| "searchForward data (i # rest) =
     (case isZeroCrossing data i of
        Inl e \<Rightarrow> Inl e
      | Inr True \<Rightarrow> Inr (Some i)
      | Inr False \<Rightarrow> searchForward data rest)"

text \<open>\<open>grains.insert\<close>: entries stay in key order, and an existing key is kept.\<close>

fun insertGrain :: "Grain \<Rightarrow> Grain list \<Rightarrow> Grain list" where
  "insertGrain g [] = [g]"
| "insertGrain g (h # hs) =
     (if startSample g < startSample h then g # h # hs
      else if startSample g = startSample h then h # hs
      else h # insertGrain g hs)"

text \<open>
  The end of one round of the \<open>while\<close> loop once a crossing \<open>idx\<close> is found: the
  grain is stored, \<open>start\<close> moves to \<open>idx\<close>, and the grain size is estimated again
  when \<open>start\<close> has passed \<open>nextEstimation\<close>. The result is
  \<open>(start, grainSize, nextEstimation, grains)\<close> for the next round. \<open>est\<close> stands for
  \<open>estimateGrainSize\<close> on the loaded buffer.
\<close>

definition storeGrain ::
  "(int \<Rightarrow> int) \<Rightarrow> int \<Rightarrow> int \<Rightarrow> int \<Rightarrow> Grain list \<Rightarrow> int \<Rightarrow> int \<times> int \<times> int \<times> Grain list" where
  "storeGrain est start grainSize nextEstimation grains idx =
     (let grains' = insertGrain \<lparr>startSample = start, spanLen = idx - start,
                                drift = idx - start - grainSize\<rparr> grains
      in if idx > nextEstimation
         then (idx, est idx, nextEstimation + GrainSpectrSize, grains')
         else (idx, grainSize, nextEstimation, grains'))"

text \<open>
  The \<open>while (start < static_cast<int>(data.size() - grainSize - 1))\<close> loop, on fuel:
  \<open>None\<close> is a loop still running when the fuel is gone.
\<close>

fun preprocLoop ::
  "nat \<Rightarrow> (int \<Rightarrow> int) \<Rightarrow> real list \<Rightarrow> int \<Rightarrow> int \<Rightarrow> int \<Rightarrow> Grain list
   \<Rightarrow> (SegError + Grain list) option" where
  "preprocLoop 0 est data start grainSize nextEstimation grains = None"
| "preprocLoop (Suc fuel) est data start grainSize nextEstimation grains =
     (if \<not> start < int (length data) - grainSize - 1 then Some (Inr grains)
      else
        (case searchNear data start grainSize [0..<nat grainSize] of
           Inl e \<Rightarrow> Some (Inl e)
         | Inr (Some idx) \<Rightarrow>
             (case storeGrain est start grainSize nextEstimation grains idx of
                (start', grainSize', nextEstimation', grains') \<Rightarrow>
                  preprocLoop fuel est data start' grainSize' nextEstimation' grains')
         | Inr None \<Rightarrow>
             (case searchForward data
                     [start + grainSize + cdiv grainSize 2 .. int (length data) - 1 - 1] of
                Inl e \<Rightarrow> Some (Inl e)
              | Inr None \<Rightarrow> Some (Inr grains)
              | Inr (Some i) \<Rightarrow>
                  (case storeGrain est start grainSize nextEstimation grains i of
                     (start', grainSize', nextEstimation', grains') \<Rightarrow>
                       preprocLoop fuel est data start' grainSize' nextEstimation' grains'))))"

text \<open>
  The grain part of \<open>preproc\<close>: the map is cleared, \<open>start = 0\<close>, the first estimate
  is taken at 0 and the next one is due after \<open>GrainSpectrSize\<close> samples. Every round
  that goes on moves \<open>start\<close> forward when the grain sizes are positive, so one unit
  of fuel per sample is enough.
\<close>

definition preproc :: "(int \<Rightarrow> int) \<Rightarrow> real list \<Rightarrow> (SegError + Grain list) option" where
  "preproc est data = preprocLoop (Suc (length data)) est data 0 (est 0) GrainSpectrSize []"

text \<open>
  A true zero-crossing at index \<open>i\<close>: both samples are in the buffer, the one at \<open>i\<close>
  is negative and the next is not.
\<close>

definition zeroCrossingAt :: "real list \<Rightarrow> int \<Rightarrow> bool" where
  "zeroCrossingAt data i \<longleftrightarrow>
     0 \<le> i \<and> i + 1 < int (length data) \<and> data ! nat i < 0 \<and> 0 \<le> data ! nat (i + 1)"

text \<open>
  A run of grains that starts at sample \<open>s\<close>: each grain starts where the one before
  ends, is not empty, and ends at a zero-crossing.
\<close>

fun grainChain :: "real list \<Rightarrow> int \<Rightarrow> Grain list \<Rightarrow> bool" where
  "grainChain data s [] = True"
| "grainChain data s (g # gs) =
     (startSample g = s \<and> 0 < spanLen g \<and> zeroCrossingAt data (s + spanLen g)
      \<and> grainChain data (s + spanLen g) gs)"

fun chainEnd :: "int \<Rightarrow> Grain list \<Rightarrow> int" where
  "chainEnd s [] = s"
| "chainEnd s (g # gs) = chainEnd (s + spanLen g) gs"

text \<open>
  A buffer of 3002 samples for the examples below: all ones, except for a \<open>-1\<close> at
  index 1500 and at index 3000.
\<close>

definition twoGrainData :: "real list" where
  "twoGrainData = replicate 1500 1 @ [- 1] @ replicate 1499 1 @ [- 1, 1]"

section \<open>The audio callback: \<open>App::playback\<close>\<close>

text \<open>
  The output stream is memory addressed relative to the pointer the callback gets:
  the \<open>dur\<close> samples of the device buffer are the addresses \<open>0 .. dur - 1\<close>, and the
  store also has the addresses around them, so that a pointer that leaves the buffer
  is visible. Each walk records the addresses it touches, in order.
\<close>

type_synonym Stream = "int \<Rightarrow> real"

text \<open>\<open>for (; dur > 0; --dur, ++w) *w = 0;\<close>\<close>

fun zeroFill :: "nat \<Rightarrow> Stream \<Rightarrow> int \<Rightarrow> int list \<Rightarrow> Stream \<times> int \<times> int list" where
  "zeroFill 0 mem w tr = (mem, w, tr)"
| "zeroFill (Suc dur) mem w tr = zeroFill dur (mem(w := 0)) (w + 1) (tr @ [w])"

text \<open>
  \<open>for (int i = 0; i < 100; ++i) { *w *= .01 * i; --w; }\<close>: the first argument
  counts the iterations that remain.
\<close>

fun fadeOut :: "nat \<Rightarrow> nat \<Rightarrow> Stream \<Rightarrow> int \<Rightarrow> int list \<Rightarrow> Stream \<times> int \<times> int list" where
  "fadeOut 0 i mem w tr = (mem, w, tr)"
| "fadeOut (Suc k) i mem w tr =
     fadeOut k (i + 1) (mem(w := mem w * (1 / 100 * real i))) (w - 1) (tr @ [w])"

text \<open>
  The stopped branch on the stream: zero fill from address 0, then the fade loop from
  wherever \<open>w\<close> was left. The result is the stream and the addresses touched.
\<close>

definition stoppedBranch :: "nat \<Rightarrow> Stream \<Rightarrow> Stream \<times> int list" where
  "stoppedBranch dur mem =
     (case zeroFill dur mem 0 [] of
        (m1, w1, t1) \<Rightarrow> (case fadeOut 100 0 m1 w1 t1 of (m2, w2, t2) \<Rightarrow> (m2, t2)))"

text \<open>
  What the callback reads but never changes: the sample rate, the markers, the
  length of \<open>data\<close> and the grain index.
\<close>

record Doc =
  sampleRate :: int
  markers :: "Marker list"
  dataSize :: nat
  grains :: "Grain list"

text \<open>What the callback changes. \<open>restWav\<close> is the residual buffer.\<close>

record App =
  cursorSec :: real
  isAudioPlaying :: bool
  restWav :: "real list"
  prevGrain :: Grain
  caches :: Caches

text \<open>
  The resampling and crossfade of one found grain (lines 245 to 309 of the callback)
  use \<open>pow\<close>, \<open>sin\<close>, \<open>rand\<close> and pointer adjacency; they are a parameter here. It
  gets \<open>restWav\<close>, \<open>prevGrain\<close>, the caches, \<open>tmpCursor\<close>, the pitch bend and the
  grain, and yields the new \<open>restWav\<close>, the caches after its own \<open>time2Sample\<close> call
  and the count \<open>sz\<close>; nothing else of the state is assigned in those lines, except
  \<open>prevGrain\<close>, which becomes the grain.
\<close>

type_synonym Render =
  "real list \<Rightarrow> Grain \<Rightarrow> Caches \<Rightarrow> real \<Rightarrow> real \<Rightarrow> Grain \<Rightarrow> real list \<times> Caches \<times> nat"

text \<open>
  The \<open>while (restWav.size() < dur + preferredGrainSize)\<close> loop. It need not end, so
  it runs on fuel: \<open>None\<close> is a loop still running when the fuel is gone. \<open>Some (True, s)\<close>
  is the normal exit, \<open>Some (False, s)\<close> the \<open>return\<close> on a lookup miss.
\<close>

fun playLoop :: "nat \<Rightarrow> Render \<Rightarrow> Doc \<Rightarrow> nat \<Rightarrow> nat \<Rightarrow> real \<Rightarrow> App \<Rightarrow> (bool \<times> App) option" where
  "playLoop 0 render doc dur sampleOffset tmpCursor s = None"
| "playLoop (Suc fuel) render doc dur sampleOffset tmpCursor s =
     (if \<not> int (length (restWav s)) < int dur + preferredGrainSize then Some (True, s)
      else
        (let (smp, c1) = time2SampleCached (sampleRate doc) (markers doc) tmpCursor (caches s);
             key = smp + int sampleOffset;
             (pb, c2) = time2PitchBendCached (sampleRate doc) (markers doc) (dataSize doc)
                          tmpCursor c1
         in case lower_bound key (grains doc) of
              None \<Rightarrow> Some (False, s\<lparr>isAudioPlaying := False, caches := c2\<rparr>)
            | Some grain \<Rightarrow>
                (let (rw, c3, sz) = render (restWav s) (prevGrain s) c2 tmpCursor pb grain
                 in playLoop fuel render doc dur sampleOffset
                      (tmpCursor + 1 * real sz / real_of_int (sampleRate doc))
                      (s\<lparr>restWav := rw, prevGrain := grain, caches := c3\<rparr>))))"

text \<open>
  The lookup that ends the signal: \<open>lookupMisses k\<close> says that the loop, entered with
  \<open>tmpCursor\<close> and state \<open>s\<close>, gets as far as its lookup number \<open>k\<close> (counting from
  0), that the lookups before it found a grain, and that this one finds none.
\<close>

fun lookupMisses :: "nat \<Rightarrow> Render \<Rightarrow> Doc \<Rightarrow> nat \<Rightarrow> nat \<Rightarrow> real \<Rightarrow> App \<Rightarrow> bool" where
  "lookupMisses 0 render doc dur sampleOffset tmpCursor s =
     (int (length (restWav s)) < int dur + preferredGrainSize
      \<and> lower_bound
            (fst (time2SampleCached (sampleRate doc) (markers doc) tmpCursor (caches s))
             + int sampleOffset) (grains doc) = None)"
| "lookupMisses (Suc k) render doc dur sampleOffset tmpCursor s =
     (int (length (restWav s)) < int dur + preferredGrainSize
      \<and> (let (smp, c1) = time2SampleCached (sampleRate doc) (markers doc) tmpCursor (caches s);
              (pb, c2) = time2PitchBendCached (sampleRate doc) (markers doc) (dataSize doc)
                           tmpCursor c1
          in case lower_bound (smp + int sampleOffset) (grains doc) of
               None \<Rightarrow> False
             | Some grain \<Rightarrow>
                 (let (rw, c3, sz) = render (restWav s) (prevGrain s) c2 tmpCursor pb grain
                  in lookupMisses k render doc dur sampleOffset
                       (tmpCursor + 1 * real sz / real_of_int (sampleRate doc))
                       (s\<lparr>restWav := rw, prevGrain := grain, caches := c3\<rparr>))))"

text \<open>
  The test at the top of the callback: \<open>duration()\<close> is evaluated only when the
  cursor is not negative.
\<close>

definition checkCursor :: "Doc \<Rightarrow> App \<Rightarrow> App" where
  "checkCursor doc s =
     (if cursorSec s < 0 then s\<lparr>isAudioPlaying := False\<rparr>
      else (let (d, c1) = durationCached (sampleRate doc) (markers doc) (dataSize doc) (caches s)
            in if cursorSec s \<ge> d then s\<lparr>isAudioPlaying := False, caches := c1\<rparr>
               else s\<lparr>caches := c1\<rparr>))"

datatype Outcome = Stopped | EndOfSignal | Delivered

record Result =
  outcome :: Outcome
  stream :: Stream
  touched :: "int list"
  app :: App

text \<open>
  The final block: up to \<open>dur\<close> samples leave the front of \<open>restWav\<close> for the stream and
  the cursor advances by as many.
\<close>

definition deliver :: "Doc \<Rightarrow> nat \<Rightarrow> Stream \<Rightarrow> App \<Rightarrow> Result" where
  "deliver doc dur mem s =
     (if restWav s \<noteq> [] then
        (let sz = min (length (restWav s)) dur
         in \<lparr>outcome = Delivered,
             stream = (\<lambda>a. if 0 \<le> a \<and> a < int sz then restWav s ! nat a else mem a),
             touched = map int [0..<sz],
             app = s\<lparr>restWav := drop sz (restWav s),
                     cursorSec := cursorSec s + 1 * real sz / real_of_int (sampleRate doc)\<rparr>\<rparr>)
      else \<lparr>outcome = Delivered, stream = mem, touched = [], app = s\<rparr>)"

definition playback :: "nat \<Rightarrow> Render \<Rightarrow> Doc \<Rightarrow> nat \<Rightarrow> Stream \<Rightarrow> App \<Rightarrow> Result option" where
  "playback fuel render doc dur mem s =
     (let s1 = checkCursor doc s
      in if \<not> isAudioPlaying s1 then
           Some \<lparr>outcome = Stopped, stream = fst (stoppedBranch dur mem),
                 touched = snd (stoppedBranch dur mem), app = s1\<lparr>restWav := []\<rparr>\<rparr>
         else
           (case playLoop fuel render doc dur (length (restWav s1)) (cursorSec s1) s1 of
              None \<Rightarrow> None
            | Some (False, s2) \<Rightarrow>
                Some \<lparr>outcome = EndOfSignal, stream = mem, touched = [], app = s2\<rparr>
            | Some (True, s2) \<Rightarrow> Some (deliver doc dur mem s2)))"

text \<open>
  A scenario for the end of the signal: two seconds of audio at 48 kHz, no markers,
  one grain at the start of the buffer, the cursor at one second with 1500 samples
  waiting in \<open>restWav\<close>. The render parameter is the one that appends nothing.
\<close>

definition endDoc :: Doc where
  "endDoc = \<lparr>sampleRate = 48000, markers = [], dataSize = 96000,
             grains = [\<lparr>startSample = 0, spanLen = 1500, drift = 0\<rparr>]\<rparr>"

definition endApp :: App where
  "endApp = \<lparr>cursorSec = 1, isAudioPlaying = True, restWav = replicate 1500 (1 / 2),
             prevGrain = \<lparr>startSample = 0, spanLen = 0, drift = 0\<rparr>, caches = emptyCaches\<rparr>"

definition idleRender :: Render where
  "idleRender rw pg c tmpCursor pb g = (rw, c, 0)"

text \<open>
  A second scenario: the same document played from the start with an empty
  \<open>restWav\<close>, and a render parameter that yields one output sample per grain sample.
\<close>

definition startApp :: App where
  "startApp = \<lparr>cursorSec = 0, isAudioPlaying = True, restWav = [],
               prevGrain = \<lparr>startSample = 0, spanLen = 0, drift = 0\<rparr>, caches = emptyCaches\<rparr>"

definition plainRender :: Render where
  "plainRender rw pg c tmpCursor pb g =
     (rw @ replicate (nat (spanLen g)) (1 / 2), c, nat (spanLen g))"

section \<open>Properties of the warp map\<close>

text \<open>
  Claim C3, as stated: for every sample index at or before the first marker's sample,
  \<open>sample2Time s = s / sampleRate\<close> whatever the first marker's \<open>dTime\<close>. It fails:
  at 48 kHz with one marker at sample 48000 and \<open>dTime = 1\<close>, sample 24000 maps to
  1 second, not to 0.5.
\<close>

theorem sample2Time_identity_before_first_marker_counterexample:
  "sample2Time 48000 [\<lparr>sample = 48000, noteOf = 0, dTime = 1, pitchBend = 0\<rparr>] 24000
     \<noteq> real_of_int 24000 / real_of_int 48000"
  by (simp add: sample2Time_def)

text \<open>
  Claim C3, amended: at or before the first marker's sample, \<open>sample2Time s\<close> is
  \<open>s / sampleRate\<close> for \<open>s \<le> 0\<close>, and for \<open>0 < s\<close> it is \<open>s / sampleRate\<close> plus
  the share \<open>s / sample\<close> of the first marker's \<open>dTime\<close>: the first marker's offset
  stretches the interval that ends at it. It is identity scaling exactly when that
  \<open>dTime\<close> is 0.
\<close>

theorem sample2Time_before_first_marker:
  assumes "0 < sr" and "s \<le> sample m"
  shows "sample2Time sr (m # ms) s =
           real_of_int s / real_of_int sr
           + (if 0 < s then real_of_int s * dTime m / real_of_int (sample m) else 0)"
proof (cases "0 < s")
  case False
  then show ?thesis by (simp add: sample2Time_def)
next
  case True
  with assms have pos: "0 < sample m" by linarith
  from True assms pos show ?thesis
    by (simp add: sample2Time_def Let_def field_simps)
qed

theorem sample2Time_before_first_marker_witness:
  "(0::int) < 48000 \<and> (24000::int) \<le> sample \<lparr>sample = 48000, noteOf = 0, dTime = 1, pitchBend = 0\<rparr>
   \<and> sample2Time 48000 [\<lparr>sample = 48000, noteOf = 0, dTime = 1, pitchBend = 0\<rparr>] 24000 = 1"
  using sample2Time_before_first_marker
    [of 48000 24000 "\<lparr>sample = 48000, noteOf = 0, dTime = 1, pitchBend = 0\<rparr>" "[]"]
  by simp

text \<open>Helper facts about the marker walk of \<open>sample2Time\<close>.\<close>

lemma sample2TimeLoop_lower:
  "0 < sr \<Longrightarrow> segmentsNonneg sr ps ms \<Longrightarrow> ps < v \<Longrightarrow> pt \<le> sample2TimeLoop sr v ps pt ms"
proof (induction ms arbitrary: ps pt)
  case Nil
  then show ?case by simp
next
  case (Cons m ms)
  define rt where "rt = pt + real_of_int (sample m - ps) / real_of_int sr + dTime m"
  from Cons.prems have seg: "pt \<le> rt" and rest: "segmentsNonneg sr (sample m) ms"
    by (simp_all add: rt_def)
  show ?case
  proof (cases "v \<le> sample m")
    case True
    with Cons.prems have "0 \<le> real_of_int (v - ps) * (rt - pt) / real_of_int (sample m - ps)"
      using seg by (intro divide_nonneg_nonneg mult_nonneg_nonneg) simp_all
    with True Cons.prems show ?thesis by (simp add: Let_def rt_def)
  next
    case False
    then have "sample m < v" by simp
    from Cons.IH[OF Cons.prems(1) rest this, of rt] seg False show ?thesis
      by (simp add: Let_def rt_def)
  qed
qed

lemma sample2TimeLoop_mono:
  "0 < sr \<Longrightarrow> segmentsNonneg sr ps ms \<Longrightarrow> ps < a \<Longrightarrow> a \<le> b \<Longrightarrow>
   sample2TimeLoop sr a ps pt ms \<le> sample2TimeLoop sr b ps pt ms"
proof (induction ms arbitrary: ps pt)
  case Nil
  then show ?case by (simp add: divide_right_mono)
next
  case (Cons m ms)
  define rt where "rt = pt + real_of_int (sample m - ps) / real_of_int sr + dTime m"
  from Cons.prems have seg: "pt \<le> rt" and rest: "segmentsNonneg sr (sample m) ms"
    by (simp_all add: rt_def)
  show ?case
  proof (cases "a \<le> sample m")
    case aIn: True
    with Cons.prems have len: "0 < real_of_int (sample m - ps)" by simp
    show ?thesis
    proof (cases "b \<le> sample m")
      case True
      have "real_of_int (a - ps) * (rt - pt) \<le> real_of_int (b - ps) * (rt - pt)"
        using Cons.prems seg by (intro mult_right_mono) simp_all
      then have "real_of_int (a - ps) * (rt - pt) / real_of_int (sample m - ps)
                 \<le> real_of_int (b - ps) * (rt - pt) / real_of_int (sample m - ps)"
        using len by (intro divide_right_mono) simp_all
      with aIn True Cons.prems show ?thesis by (simp add: Let_def rt_def)
    next
      case False
      then have bOut: "sample m < b" by simp
      have "real_of_int (a - ps) * (rt - pt) \<le> real_of_int (sample m - ps) * (rt - pt)"
        using aIn seg by (intro mult_right_mono) simp_all
      then have "real_of_int (a - ps) * (rt - pt) / real_of_int (sample m - ps) \<le> rt - pt"
        using len by (simp add: pos_divide_le_eq mult.commute)
      moreover have "rt \<le> sample2TimeLoop sr b (sample m) rt ms"
        by (rule sample2TimeLoop_lower[OF Cons.prems(1) rest bOut])
      ultimately show ?thesis using aIn False Cons.prems by (simp add: Let_def rt_def)
    qed
  next
    case False
    then have aOut: "sample m < a" by simp
    with Cons.prems have "\<not> b \<le> sample m" by simp
    with False Cons.IH[OF Cons.prems(1) rest aOut Cons.prems(4), of rt] show ?thesis
      by (simp add: Let_def rt_def)
  qed
qed

text \<open>
  Claim C4, as stated: for a marker list sorted ascending by sample, with arbitrary
  \<open>dTime\<close> values, \<open>sample2Time\<close> is monotone non-decreasing. It fails: one marker
  at sample 48000 with \<open>dTime = -2\<close> (48 kHz) puts sample 48000 at \<open>-1\<close> second,
  before sample 0.
\<close>

theorem sample2Time_mono_arbitrary_dTime_counterexample:
  "sorted (map sample [\<lparr>sample = 48000, noteOf = 0, dTime = - 2, pitchBend = 0\<rparr>])
   \<and> (0::int) \<le> 48000
   \<and> \<not> sample2Time 48000 [\<lparr>sample = 48000, noteOf = 0, dTime = - 2, pitchBend = 0\<rparr>] 0
        \<le> sample2Time 48000 [\<lparr>sample = 48000, noteOf = 0, dTime = - 2, pitchBend = 0\<rparr>] 48000"
  by (simp add: sample2Time_def)

text \<open>
  Claim C4, amended: \<open>sample2Time\<close> is monotone non-decreasing for every marker list
  in which each segment's edited length \<open>(sample - prevSample) / sampleRate + dTime\<close>
  is non-negative (the sample rate being positive); sortedness of the list is not
  needed beyond that.
\<close>

theorem sample2Time_mono:
  assumes "0 < sr" and "segmentsNonneg sr 0 ms" and "s1 \<le> s2"
  shows "sample2Time sr ms s1 \<le> sample2Time sr ms s2"
proof (cases "0 < s1")
  case True
  with assms show ?thesis
    by (simp add: sample2Time_def sample2TimeLoop_mono)
next
  case s1: False
  show ?thesis
  proof (cases "0 < s2")
    case True
    have "real_of_int s1 / real_of_int sr \<le> 0"
      using s1 assms(1) by (simp add: divide_le_0_iff)
    also have "0 \<le> sample2TimeLoop sr s2 0 0 ms"
      by (rule sample2TimeLoop_lower[OF assms(1) assms(2) True])
    finally show ?thesis using s1 True by (simp add: sample2Time_def)
  next
    case False
    with s1 assms show ?thesis
      by (simp add: sample2Time_def divide_right_mono)
  qed
qed

theorem sample2Time_mono_witness:
  "(0::int) < 48000
   \<and> segmentsNonneg 48000 0 [\<lparr>sample = 48000, noteOf = 0, dTime = - 1 / 2, pitchBend = 0\<rparr>]
   \<and> (24000::int) \<le> 96000
   \<and> sample2Time 48000 [\<lparr>sample = 48000, noteOf = 0, dTime = - 1 / 2, pitchBend = 0\<rparr>] 24000
       \<le> sample2Time 48000 [\<lparr>sample = 48000, noteOf = 0, dTime = - 1 / 2, pitchBend = 0\<rparr>] 96000"
  using sample2Time_mono
    [of 48000 "[\<lparr>sample = 48000, noteOf = 0, dTime = - 1 / 2, pitchBend = 0\<rparr>]" 24000 96000]
  by simp

section \<open>Properties of the warp map in double arithmetic\<close>

lemma truncInt_close: "\<bar>real_of_int (truncInt x) - x\<bar> < 1"
  unfolding truncInt_def by (cases "0 \<le> x") (simp_all, linarith+)

lemma roundEven_close: "\<bar>real_of_int (roundEven y) - y\<bar> \<le> 1 / 2"
  unfolding roundEven_def abs_le_iff by (auto; linarith)

lemma dblExp_le: assumes "x \<noteq> 0" shows "2 powr real_of_int (dblExp x) \<le> \<bar>x\<bar>"
proof -
  from assms have pos: "0 < \<bar>x\<bar>" by simp
  have "real_of_int (dblExp x) \<le> log 2 \<bar>x\<bar>" unfolding dblExp_def by simp
  then have "2 powr real_of_int (dblExp x) \<le> 2 powr log 2 \<bar>x\<bar>" by simp
  with pos show ?thesis by simp
qed

text \<open>Rounding to a double changes a value by at most \<open>2^-53\<close> of its size.\<close>

lemma dbl_error: "\<bar>dbl x - x\<bar> \<le> \<bar>x\<bar> / 2 ^ 53"
proof (cases "x = 0")
  case True
  then show ?thesis by (simp add: dbl_def)
next
  case False
  define e where "e = dblExp x"
  define y where "y = x * 2 powr real_of_int (52 - e)"
  have up: "2 powr real_of_int (52 - e) * 2 powr real_of_int (e - 52) = 1"
    by (simp flip: powr_add)
  have x: "x = y * 2 powr real_of_int (e - 52)"
    unfolding y_def using up by (simp add: mult.assoc)
  have d: "dbl x = real_of_int (roundEven y) * 2 powr real_of_int (e - 52)"
    using False by (simp add: dbl_def e_def y_def)
  have "dbl x - x = (real_of_int (roundEven y) - y) * 2 powr real_of_int (e - 52)"
    unfolding d using x by (simp add: left_diff_distrib)
  then have "\<bar>dbl x - x\<bar> = \<bar>real_of_int (roundEven y) - y\<bar> * 2 powr real_of_int (e - 52)"
    by (simp add: abs_mult)
  also have "\<dots> \<le> 1 / 2 * 2 powr real_of_int (e - 52)"
    by (intro mult_right_mono roundEven_close) simp
  also have "\<dots> = 2 powr real_of_int e / 2 ^ 53"
  proof -
    have "2 powr real_of_int (e - 52) = 2 powr real_of_int e / 2 powr 52"
      by (simp add: powr_diff)
    also have "(2::real) powr 52 = 2 ^ 52" by (simp add: powr_numeral)
    finally show ?thesis by simp
  qed
  also have "\<dots> \<le> \<bar>x\<bar> / 2 ^ 53"
    using dblExp_le[OF False] by (simp add: e_def divide_right_mono)
  finally show ?thesis .
qed

lemma dbl_eval:
  assumes "2 powr real_of_int e \<le> \<bar>x\<bar>" and "\<bar>x\<bar> < 2 powr real_of_int (e + 1)"
  shows "dbl x = real_of_int (roundEven (x * 2 powr real_of_int (52 - e))) * 2 powr real_of_int (e - 52)"
proof -
  from assms(1) have "0 < \<bar>x\<bar>"
    using powr_gt_zero[of 2 "real_of_int e"] by linarith
  then have nz: "x \<noteq> 0" by simp
  have "\<lfloor>log 2 \<bar>x\<bar>\<rfloor> = e"
    using assms \<open>0 < \<bar>x\<bar>\<close> by (subst floor_log_eq_powr_iff) simp_all
  with nz show ?thesis by (simp add: dbl_def dblExp_def)
qed

lemma dbl_27: "dbl (27 / 48000) = 5188146770730811 / 2 ^ 63"
  by (subst dbl_eval[where e = "- 11"]) (simp_all add: roundEven_def powr_minus powr_numeral)

lemma dbl_27b: "dbl (5188146770730811 / 2 ^ 63 * 48000) = 7599824371187711 / 2 ^ 48"
  by (subst dbl_eval[where e = 4]) (simp_all add: roundEven_def powr_minus powr_numeral)


lemma noMarkerCaches_emptyCaches: "noMarkerCaches sr emptyCaches"
  by (simp add: noMarkerCaches_def emptyCaches_def)

lemma sample2TimeDbl_no_markers:
  assumes "noMarkerCaches sr c"
  shows "fst (sample2TimeDbl sr [] s c) = dbl (real_of_int s / real_of_int sr)
         \<and> noMarkerCaches sr (snd (sample2TimeDbl sr [] s c))"
proof (cases "s \<le> 0")
  case True
  with assms show ?thesis by (simp add: sample2TimeDbl_def ddiv_def)
next
  case False
  show ?thesis
  proof (cases "sample2TimeCache c s")
    case None
    have "sample2TimeLoopDbl sr s 0 0 [] = dbl (real_of_int s / real_of_int sr)"
      by (simp add: dadd_def ddiv_def)
    with False None assms show ?thesis
      unfolding noMarkerCaches_def by (simp add: sample2TimeDbl_def Let_def)
  next
    case (Some r)
    with assms have "r = dbl (real_of_int s / real_of_int sr)"
      unfolding noMarkerCaches_def by blast
    with False Some assms show ?thesis by (simp add: sample2TimeDbl_def)
  qed
qed

lemma toInt_in_range: "\<bar>p\<bar> < 2 ^ 31 \<Longrightarrow> toInt p = Some (truncInt p)"
  by (simp add: toInt_def abs_less_iff)

lemma time2SampleDbl_no_markers:
  assumes "noMarkerCaches sr c" and "\<bar>dmul t (real_of_int sr)\<bar> < 2 ^ 31"
  shows "\<exists>c1. time2SampleDbl sr [] t c = Some (truncInt (dmul t (real_of_int sr)), c1)
              \<and> noMarkerCaches sr c1"
proof -
  let ?p = "dmul t (real_of_int sr)"
  have key: "toInt ?p = Some (truncInt ?p)" by (rule toInt_in_range[OF assms(2)])
  show ?thesis
  proof (cases "t \<le> 0")
    case True
    with key assms(1) show ?thesis by (simp add: time2SampleDbl_def)
  next
    case False
    show ?thesis
    proof (cases "time2SampleCache c (truncInt ?p)")
      case None
      have loop: "time2SampleLoopDbl sr t 0 0 [] = ?p"
        by (simp add: dadd_def dsub_def)
      have "noMarkerCaches sr
              (c\<lparr>time2SampleCache := (time2SampleCache c)(truncInt ?p \<mapsto> truncInt ?p)\<rparr>)"
        using assms(1) unfolding noMarkerCaches_def by simp
      with False None key loop show ?thesis by (simp add: time2SampleDbl_def)
    next
      case (Some r)
      with assms(1) have "r = truncInt ?p" unfolding noMarkerCaches_def by blast
      with False Some key assms(1) show ?thesis by (simp add: time2SampleDbl_def)
    qed
  qed
qed

text \<open>The size of a rounded value.\<close>

lemma dbl_abs_le: "\<bar>dbl x\<bar> \<le> \<bar>x\<bar> * (1 + 1 / 2 ^ 53)"
proof -
  have "\<bar>dbl x\<bar> \<le> \<bar>x\<bar> + \<bar>dbl x - x\<bar>" by simp
  also have "\<dots> \<le> \<bar>x\<bar> + \<bar>x\<bar> / 2 ^ 53" using dbl_error[of x] by simp
  finally show ?thesis by (simp add: algebra_simps)
qed

text \<open>Dividing by the sample rate and multiplying back, both rounded, stays within 1.\<close>

lemma scale_round_trip_error:
  assumes "0 < sr" and "\<bar>s\<bar> < 2 ^ 31"
  shows "\<bar>dbl (dbl (real_of_int s / real_of_int sr) * real_of_int sr) - real_of_int s\<bar> < 1"
proof -
  define S where "S = \<bar>real_of_int s\<bar>"
  define a where "a = dbl (real_of_int s / real_of_int sr)"
  define b where "b = a * real_of_int sr"
  from assms(1) have srpos: "0 < real_of_int sr" by simp
  from assms(2) have "real_of_int \<bar>s\<bar> < real_of_int (2 ^ 31)"
    by (simp only: of_int_less_iff)
  then have Sb: "S < 2 ^ 31" by (simp add: S_def)
  have S0: "0 \<le> S" by (simp add: S_def)
  have "\<bar>a - real_of_int s / real_of_int sr\<bar> \<le> \<bar>real_of_int s / real_of_int sr\<bar> / 2 ^ 53"
    unfolding a_def by (rule dbl_error)
  then have "\<bar>a - real_of_int s / real_of_int sr\<bar> * real_of_int sr
             \<le> \<bar>real_of_int s / real_of_int sr\<bar> / 2 ^ 53 * real_of_int sr"
    using srpos by (intro mult_right_mono) simp_all
  moreover have "\<bar>a - real_of_int s / real_of_int sr\<bar> * real_of_int sr = \<bar>b - real_of_int s\<bar>"
  proof -
    have "\<bar>a - real_of_int s / real_of_int sr\<bar> * real_of_int sr
          = \<bar>(a - real_of_int s / real_of_int sr) * real_of_int sr\<bar>"
      using srpos by (simp add: abs_mult)
    also have "(a - real_of_int s / real_of_int sr) * real_of_int sr = b - real_of_int s"
      using srpos by (simp add: b_def left_diff_distrib)
    finally show ?thesis .
  qed
  moreover have "\<bar>real_of_int s / real_of_int sr\<bar> / 2 ^ 53 * real_of_int sr = S / 2 ^ 53"
    using srpos by (simp add: S_def abs_divide)
  ultimately have e1: "\<bar>b - real_of_int s\<bar> \<le> S / 2 ^ 53" by simp
  have "\<bar>b\<bar> \<le> \<bar>real_of_int s\<bar> + \<bar>b - real_of_int s\<bar>" by simp
  with e1 have bb: "\<bar>b\<bar> \<le> S + S / 2 ^ 53" by (simp add: S_def)
  have "\<bar>dbl b - b\<bar> \<le> \<bar>b\<bar> / 2 ^ 53" by (rule dbl_error)
  also have "\<dots> \<le> (S + S / 2 ^ 53) / 2 ^ 53" using bb by (simp add: divide_right_mono)
  finally have e2: "\<bar>dbl b - b\<bar> \<le> (S + S / 2 ^ 53) / 2 ^ 53" .
  have "\<bar>dbl b - real_of_int s\<bar> \<le> \<bar>dbl b - b\<bar> + \<bar>b - real_of_int s\<bar>" by simp
  with e1 e2 have "\<bar>dbl b - real_of_int s\<bar> \<le> (S + S / 2 ^ 53) / 2 ^ 53 + S / 2 ^ 53" by simp
  also have "\<dots> < 1" using Sb S0 by simp
  finally show ?thesis by (simp add: a_def b_def)
qed

lemma truncInt_near_int:
  assumes "\<bar>p - real_of_int s\<bar> < 1"
  shows "\<bar>truncInt p - s\<bar> \<le> 1 \<and> \<bar>truncInt p\<bar> \<le> \<bar>s\<bar>"
proof -
  from assms have lo: "real_of_int s - 1 < p" and hi: "p < real_of_int s + 1"
    by (simp_all add: abs_less_iff)
  show ?thesis
  proof (cases "0 \<le> p")
    case True
    from hi have "\<lfloor>p\<rfloor> \<le> s" by linarith
    moreover from lo have "s - 1 \<le> \<lfloor>p\<rfloor>" by linarith
    moreover from True have "0 \<le> \<lfloor>p\<rfloor>" by simp
    ultimately show ?thesis using True by (simp add: truncInt_def)
  next
    case False
    from lo have "s \<le> \<lceil>p\<rceil>" by linarith
    moreover from hi have "\<lceil>p\<rceil> \<le> s + 1" by linarith
    moreover from False have "\<lceil>p\<rceil> \<le> 0" by linarith
    ultimately show ?thesis using False by (simp add: truncInt_def)
  qed
qed


lemma truncInt_abs_le: "\<bar>real_of_int (truncInt x)\<bar> \<le> \<bar>x\<bar>"
proof (cases "0 \<le> x")
  case True
  then have "0 \<le> \<lfloor>x\<rfloor>" by simp
  then have "\<bar>real_of_int \<lfloor>x\<rfloor>\<bar> = real_of_int \<lfloor>x\<rfloor>" by simp
  with True show ?thesis by (simp add: truncInt_def)
next
  case False
  then have "\<lceil>x\<rceil> \<le> 0" by linarith
  then have "\<bar>real_of_int \<lceil>x\<rceil>\<bar> = - real_of_int \<lceil>x\<rceil>" by simp
  moreover have "x \<le> real_of_int \<lceil>x\<rceil>" by simp
  ultimately show ?thesis using False by (simp add: truncInt_def)
qed

text \<open>
  Multiplying by the sample rate, truncating, and dividing back: one sample period
  plus rounding.
\<close>

lemma truncate_round_trip_error:
  assumes "0 < sr" and "\<bar>dbl (t * real_of_int sr)\<bar> < 2 ^ 31"
  shows "\<bar>dbl (real_of_int (truncInt (dbl (t * real_of_int sr))) / real_of_int sr) - t\<bar>
         \<le> (1 + 1 / 2 ^ 20) / real_of_int sr"
proof -
  define X where "X = t * real_of_int sr"
  define p where "p = dbl X"
  define k where "k = real_of_int (truncInt p)"
  define u where "u = dbl (k / real_of_int sr)"
  from assms(1) have srpos: "0 < real_of_int sr" by simp
  from assms(2) have pb: "\<bar>p\<bar> < 2 ^ 31" by (simp add: p_def X_def)
  have ep: "\<bar>p - X\<bar> \<le> \<bar>X\<bar> / 2 ^ 53" unfolding p_def by (rule dbl_error)
  have Xb: "\<bar>X\<bar> < 2 ^ 32"
  proof (rule ccontr)
    assume "\<not> \<bar>X\<bar> < 2 ^ 32"
    then have big: "2 ^ 32 \<le> \<bar>X\<bar>" by simp
    have "\<bar>X\<bar> \<le> \<bar>p\<bar> + \<bar>p - X\<bar>" by simp
    with ep have "\<bar>X\<bar> - \<bar>X\<bar> / 2 ^ 53 \<le> \<bar>p\<bar>" by simp
    moreover have "\<bar>X\<bar> / 2 \<le> \<bar>X\<bar> - \<bar>X\<bar> / 2 ^ 53" by simp
    ultimately have "\<bar>X\<bar> / 2 \<le> \<bar>p\<bar>" by simp
    with big pb show False by simp
  qed
  from ep Xb have ep': "\<bar>p - X\<bar> \<le> 1 / 2 ^ 21"
  proof -
    have "\<bar>X\<bar> / 2 ^ 53 \<le> 2 ^ 32 / 2 ^ 53" using Xb by (simp add: divide_right_mono)
    also have "\<dots> = (1::real) / 2 ^ 21" by simp
    finally show ?thesis using ep by simp
  qed
  have ek: "\<bar>k - p\<bar> < 1" unfolding k_def by (rule truncInt_close)
  have kb: "\<bar>k\<bar> < 2 ^ 31" using truncInt_abs_le[of p] pb by (simp add: k_def)
  have kX: "\<bar>k - X\<bar> \<le> 1 + 1 / 2 ^ 21"
  proof -
    have "\<bar>k - X\<bar> \<le> \<bar>k - p\<bar> + \<bar>p - X\<bar>" by simp
    with ek ep' show ?thesis by simp
  qed
  have e1: "\<bar>k / real_of_int sr - t\<bar> \<le> (1 + 1 / 2 ^ 21) / real_of_int sr"
  proof -
    have "k / real_of_int sr - t = (k - X) / real_of_int sr"
      using srpos by (simp add: X_def diff_divide_distrib)
    then have "\<bar>k / real_of_int sr - t\<bar> = \<bar>k - X\<bar> / real_of_int sr"
      using srpos by (simp add: abs_divide)
    moreover have "\<bar>k - X\<bar> / real_of_int sr \<le> (1 + 1 / 2 ^ 21) / real_of_int sr"
      by (rule divide_right_mono[OF kX]) (use srpos in simp)
    ultimately show ?thesis by (simp only:)
  qed
  have e2: "\<bar>u - k / real_of_int sr\<bar> \<le> (1 / 2 ^ 22) / real_of_int sr"
  proof -
    have "\<bar>u - k / real_of_int sr\<bar> \<le> \<bar>k / real_of_int sr\<bar> / 2 ^ 53"
      unfolding u_def by (rule dbl_error)
    also have "\<dots> = (\<bar>k\<bar> / 2 ^ 53) / real_of_int sr"
      using srpos by (simp add: abs_divide)
    also have "\<dots> \<le> (2 ^ 31 / 2 ^ 53) / real_of_int sr"
      using kb srpos by (intro divide_right_mono) simp_all
    also have "\<dots> = (1 / 2 ^ 22) / real_of_int sr" by simp
    finally show ?thesis .
  qed
  have "\<bar>u - t\<bar> \<le> \<bar>u - k / real_of_int sr\<bar> + \<bar>k / real_of_int sr - t\<bar>" by simp
  with e1 e2 have "\<bar>u - t\<bar> \<le> (1 / 2 ^ 22) / real_of_int sr + (1 + 1 / 2 ^ 21) / real_of_int sr"
    by simp
  also have "\<dots> = (1 / 2 ^ 22 + (1 + 1 / 2 ^ 21)) / real_of_int sr"
    by (simp add: add_divide_distrib)
  also have "\<dots> \<le> (1 + 1 / 2 ^ 20) / real_of_int sr"
    using srpos by (intro divide_right_mono) simp_all
  finally show ?thesis by (simp add: u_def k_def p_def X_def)
qed

text \<open>
  Claim C5, as stated: with an empty marker list both round trips are the identity
  within floating-point tolerance. Neither is. At 48 kHz, with freshly cleared caches,
  sample 27 comes back as sample 26, because \<open>27 / 48000 * 48000\<close> is
  \<open>26.999999999999996\<close> in double arithmetic and the conversion to \<open>int\<close>
  truncates; and the time \<open>2^-17\<close> s, a third of a sample period, comes back as 0.
\<close>

theorem time_round_trip_no_markers_counterexample:
  "map_option fst
     (time2SampleDbl 48000 [] (fst (sample2TimeDbl 48000 [] 27 emptyCaches))
        (snd (sample2TimeDbl 48000 [] 27 emptyCaches))) = Some 26
   \<and> map_option (\<lambda>r. fst (sample2TimeDbl 48000 [] (fst r) (snd r)))
       (time2SampleDbl 48000 [] (1 / 2 ^ 17) emptyCaches) = Some 0"
proof
  let ?a = "fst (sample2TimeDbl 48000 [] 27 emptyCaches)"
  let ?c = "snd (sample2TimeDbl 48000 [] 27 emptyCaches)"
  from sample2TimeDbl_no_markers[OF noMarkerCaches_emptyCaches, of 48000 27]
  have "?a = dbl (27 / 48000)" and v: "noMarkerCaches 48000 ?c" by simp_all
  with dbl_27 have a: "?a = 5188146770730811 / 2 ^ 63" by (simp only:)
  have p: "dmul ?a (real_of_int 48000) = 7599824371187711 / 2 ^ 48"
    unfolding a dmul_def using dbl_27b by simp
  have range: "\<bar>dmul ?a (real_of_int 48000)\<bar> < 2 ^ 31"
    unfolding p by simp
  have k: "truncInt (dmul ?a (real_of_int 48000)) = 26"
    unfolding p by (simp add: truncInt_def)
  from time2SampleDbl_no_markers[OF v range] k
  show "map_option fst (time2SampleDbl 48000 [] ?a ?c) = Some 26"
    by (elim exE conjE) simp
next
  have "dbl (1 / 2 ^ 17 * 48000) = 375 / 1024"
    by (subst dbl_eval[where e = "- 2"]) (simp_all add: roundEven_def powr_minus powr_numeral)
  then have q: "dmul (1 / 2 ^ 17) (real_of_int 48000) = 375 / 1024"
    by (simp add: dmul_def)
  have range: "\<bar>dmul (1 / 2 ^ 17) (real_of_int 48000)\<bar> < 2 ^ 31"
    unfolding q by simp
  have k: "truncInt (dmul (1 / 2 ^ 17) (real_of_int 48000)) = 0"
    unfolding q by (simp add: truncInt_def)
  have z: "fst (sample2TimeDbl 48000 [] 0 c) = 0" for c
    by (simp add: sample2TimeDbl_def ddiv_def dbl_def)
  from time2SampleDbl_no_markers[OF noMarkerCaches_emptyCaches range] k z
  show "map_option (\<lambda>r. fst (sample2TimeDbl 48000 [] (fst r) (snd r)))
       (time2SampleDbl 48000 [] (1 / 2 ^ 17) emptyCaches) = Some 0"
    by (elim exE conjE) simp
qed

text \<open>
  Claim C5, amended: with an empty marker list, a positive sample rate and caches
  filled only by queries on that empty list: for every sample index \<open>s\<close> of 32 bits,
  \<open>time2Sample (sample2Time s)\<close> is \<open>s\<close> or its neighbour toward zero (it differs
  from \<open>s\<close> by at most 1 and is not larger in absolute value); and for every time
  \<open>t\<close> whose product with the sample rate stays in the range of \<open>int\<close>,
  \<open>sample2Time (time2Sample t)\<close> differs from \<open>t\<close> by at most
  \<open>(1 + 2^-20) / sampleRate\<close>: one sample period, from the truncation to \<open>int\<close>,
  plus rounding.
\<close>

theorem round_trip_no_markers:
  assumes "0 < sr" and "noMarkerCaches sr c" and "\<bar>s\<bar> < 2 ^ 31"
    and "\<bar>dmul t (real_of_int sr)\<bar> < 2 ^ 31"
  shows "(\<exists>r c'. time2SampleDbl sr [] (fst (sample2TimeDbl sr [] s c))
                    (snd (sample2TimeDbl sr [] s c)) = Some (r, c')
                \<and> \<bar>r - s\<bar> \<le> 1 \<and> \<bar>r\<bar> \<le> \<bar>s\<bar>)
       \<and> (\<exists>k c1. time2SampleDbl sr [] t c = Some (k, c1)
                \<and> \<bar>fst (sample2TimeDbl sr [] k c1) - t\<bar> \<le> (1 + 1 / 2 ^ 20) / real_of_int sr)"
proof
  let ?a = "dbl (real_of_int s / real_of_int sr)"
  let ?p = "dmul ?a (real_of_int sr)"
  from sample2TimeDbl_no_markers[OF assms(2), of s]
  have a: "fst (sample2TimeDbl sr [] s c) = ?a"
    and c1: "noMarkerCaches sr (snd (sample2TimeDbl sr [] s c))" by simp_all
  have err: "\<bar>?p - real_of_int s\<bar> < 1"
    unfolding dmul_def by (rule scale_round_trip_error[OF assms(1,3)])
  from truncInt_near_int[OF err] have near: "\<bar>truncInt ?p - s\<bar> \<le> 1" "\<bar>truncInt ?p\<bar> \<le> \<bar>s\<bar>"
    by simp_all
  from assms(3) have "real_of_int \<bar>s\<bar> \<le> real_of_int (2 ^ 31 - 1)"
    by (simp only: of_int_le_iff)
  then have "\<bar>real_of_int s\<bar> \<le> 2 ^ 31 - 1" by simp
  with err have range: "\<bar>?p\<bar> < 2 ^ 31" by linarith
  from time2SampleDbl_no_markers[OF c1 range] obtain c' where
    "time2SampleDbl sr [] ?a (snd (sample2TimeDbl sr [] s c)) = Some (truncInt ?p, c')"
    by blast
  with near show "\<exists>r c'. time2SampleDbl sr [] (fst (sample2TimeDbl sr [] s c))
                    (snd (sample2TimeDbl sr [] s c)) = Some (r, c')
                \<and> \<bar>r - s\<bar> \<le> 1 \<and> \<bar>r\<bar> \<le> \<bar>s\<bar>"
    unfolding a by (intro exI[of _ "truncInt ?p"] exI[of _ c']) simp
next
  let ?k = "truncInt (dmul t (real_of_int sr))"
  from time2SampleDbl_no_markers[OF assms(2,4)] obtain c1 where
    ts: "time2SampleDbl sr [] t c = Some (?k, c1)" and v1: "noMarkerCaches sr c1"
    by blast
  from sample2TimeDbl_no_markers[OF v1, of ?k]
  have u: "fst (sample2TimeDbl sr [] ?k c1) = dbl (real_of_int ?k / real_of_int sr)" by simp
  have "\<bar>dbl (real_of_int ?k / real_of_int sr) - t\<bar> \<le> (1 + 1 / 2 ^ 20) / real_of_int sr"
    using truncate_round_trip_error[OF assms(1), of t] assms(4) by (simp add: dmul_def)
  with ts u show "\<exists>k c1. time2SampleDbl sr [] t c = Some (k, c1)
                \<and> \<bar>fst (sample2TimeDbl sr [] k c1) - t\<bar> \<le> (1 + 1 / 2 ^ 20) / real_of_int sr"
    by (intro exI[of _ ?k] exI[of _ c1]) simp
qed

theorem round_trip_no_markers_witness:
  "(0::int) < 48000 \<and> noMarkerCaches 48000 warmCaches \<and> \<bar>27::int\<bar> < 2 ^ 31
   \<and> \<bar>dmul (1 / 2 ^ 17) (real_of_int 48000)\<bar> < 2 ^ 31
   \<and> (\<exists>r c'. time2SampleDbl 48000 [] (fst (sample2TimeDbl 48000 [] 27 warmCaches))
                 (snd (sample2TimeDbl 48000 [] 27 warmCaches)) = Some (r, c')
              \<and> \<bar>r - 27\<bar> \<le> 1 \<and> \<bar>r\<bar> \<le> \<bar>27\<bar>)
   \<and> (\<exists>k c1. time2SampleDbl 48000 [] (1 / 2 ^ 17) warmCaches = Some (k, c1)
              \<and> \<bar>fst (sample2TimeDbl 48000 [] k c1) - 1 / 2 ^ 17\<bar>
                  \<le> (1 + 1 / 2 ^ 20) / real_of_int 48000)"
proof -
  have h1: "(0::int) < 48000" and h3: "\<bar>27::int\<bar> < 2 ^ 31" by simp_all
  have d: "dbl (real_of_int 27 / real_of_int 48000) = 5188146770730811 / 2 ^ 63"
    using dbl_27 by simp
  have h2: "noMarkerCaches 48000 warmCaches"
    unfolding noMarkerCaches_def warmCaches_def
  proof (intro conjI allI impI)
    fix k r
    assume "sample2TimeCache
              \<lparr>sample2TimeCache = [27 \<mapsto> 5188146770730811 / 2 ^ 63],
                 time2SampleCache = [26 \<mapsto> 26], time2PitchBendCache = Map.empty\<rparr> k = Some r"
    then have "k = 27" and "r = 5188146770730811 / 2 ^ 63"
      by (simp_all split: if_splits)
    with d show "r = dbl (real_of_int k / real_of_int 48000)" by (simp only:)
  next
    fix k r :: int
    assume "time2SampleCache
              \<lparr>sample2TimeCache = [27 \<mapsto> 5188146770730811 / 2 ^ 63],
                 time2SampleCache = [26 \<mapsto> 26], time2PitchBendCache = Map.empty\<rparr> k = Some r"
    then show "r = k" by (simp split: if_splits)
  qed
  have "dbl (1 / 2 ^ 17 * 48000) = 375 / 1024"
    by (subst dbl_eval[where e = "- 2"]) (simp_all add: roundEven_def powr_minus powr_numeral)
  then have q: "dmul (1 / 2 ^ 17) (real_of_int 48000) = 375 / 1024"
    by (simp add: dmul_def)
  have h4: "\<bar>dmul (1 / 2 ^ 17) (real_of_int 48000)\<bar> < 2 ^ 31"
    unfolding q by simp
  from round_trip_no_markers[OF h1 h2 h3 h4] h1 h2 h3 h4 show ?thesis
    by (intro conjI) (elim conjE, assumption)+
qed


section \<open>Properties of the pitch-bend curve\<close>

lemma length_markerTimes: "length (markerTimes sr ps pt ms) = length ms"
  by (induction ms arbitrary: ps pt) (simp_all add: Let_def)

text \<open>
  The walk started at knot \<open>(pt, ppb)\<close>, with strictly increasing knot times: inside
  the \<open>i\<close>-th interval it interpolates between knots \<open>i\<close> and \<open>i + 1\<close>.
\<close>

lemma time2PitchBendLoop_segment:
  assumes "sorted_wrt (<) (pt # markerTimes sr ps pt ms)"
    and "i < length ms"
    and "(pt # markerTimes sr ps pt ms) ! i < val"
    and "val \<le> (pt # markerTimes sr ps pt ms) ! Suc i"
  shows "time2PitchBendLoop sr d val ps pt ppb ms =
           (ppb # map pitchBend ms) ! i
           + (val - (pt # markerTimes sr ps pt ms) ! i)
             * ((ppb # map pitchBend ms) ! Suc i - (ppb # map pitchBend ms) ! i)
             / ((pt # markerTimes sr ps pt ms) ! Suc i - (pt # markerTimes sr ps pt ms) ! i)"
  using assms
proof (induction ms arbitrary: ps pt ppb i)
  case Nil
  then show ?case by simp
next
  case (Cons m ms)
  define rt where "rt = pt + real_of_int (sample m - ps) / real_of_int sr + dTime m"
  have ts: "markerTimes sr ps pt (m # ms) = rt # markerTimes sr (sample m) rt ms"
    by (simp add: rt_def Let_def)
  note markerTimes.simps [simp del]
  show ?case
  proof (cases i)
    case 0
    with Cons.prems show ?thesis by (simp add: Let_def ts) (simp add: rt_def)
  next
    case (Suc j)
    from Cons.prems(1)[unfolded ts]
    have srt: "sorted_wrt (<) (rt # markerTimes sr (sample m) rt ms)"
      by simp
    from Cons.prems(2) Suc have j: "j < length ms" by simp
    from Cons.prems(3) Suc have lo: "(rt # markerTimes sr (sample m) rt ms) ! j < val"
      by (simp add: ts)
    from Cons.prems(4) Suc have hi: "val \<le> (rt # markerTimes sr (sample m) rt ms) ! Suc j"
      by (simp add: ts)
    have "rt \<le> (rt # markerTimes sr (sample m) rt ms) ! j"
    proof (cases j)
      case 0
      then show ?thesis by simp
    next
      case (Suc k)
      with j have "k < length (markerTimes sr (sample m) rt ms)"
        by (simp add: length_markerTimes)
      with srt Suc show ?thesis by (auto simp: less_imp_le)
    qed
    with lo have "\<not> val \<le> rt" by simp
    then have "time2PitchBendLoop sr d val ps pt ppb (m # ms)
               = time2PitchBendLoop sr d val (sample m) rt (pitchBend m) ms"
      by (simp add: Let_def rt_def)
    with Cons.IH[OF srt j lo hi, of "pitchBend m"] Suc show ?thesis
      by (simp add: ts)
  qed
qed

text \<open>Past the last knot the walk falls through to the code after the loop.\<close>

lemma time2PitchBendLoop_tail:
  assumes "sorted_wrt (<) (pt # markerTimes sr ps pt ms)"
    and "last (pt # markerTimes sr ps pt ms) < val"
  shows "time2PitchBendLoop sr d val ps pt ppb ms =
           time2PitchBendLoop sr d val (last (ps # map sample ms))
             (last (pt # markerTimes sr ps pt ms)) (last (ppb # map pitchBend ms)) []"
  using assms
proof (induction ms arbitrary: ps pt ppb)
  case Nil
  then show ?case by simp
next
  case (Cons m ms)
  define rt where "rt = pt + real_of_int (sample m - ps) / real_of_int sr + dTime m"
  have ts: "markerTimes sr ps pt (m # ms) = rt # markerTimes sr (sample m) rt ms"
    by (simp add: rt_def Let_def)
  note markerTimes.simps [simp del]
  from Cons.prems(1)[unfolded ts]
  have srt: "sorted_wrt (<) (rt # markerTimes sr (sample m) rt ms)"
    by simp
  from Cons.prems(2) have lst: "last (rt # markerTimes sr (sample m) rt ms) < val"
    by (simp add: ts)
  have "rt \<le> last (rt # markerTimes sr (sample m) rt ms)"
  proof (cases "markerTimes sr (sample m) rt ms = []")
    case True
    then show ?thesis by simp
  next
    case False
    with srt have "rt < last (markerTimes sr (sample m) rt ms)" by simp
    with False show ?thesis by simp
  qed
  with lst have "\<not> val \<le> rt" by simp
  then have "time2PitchBendLoop sr d val ps pt ppb (m # ms)
             = time2PitchBendLoop sr d val (sample m) rt (pitchBend m) ms"
    by (simp add: Let_def rt_def)
  with Cons.IH[OF srt lst, of "pitchBend m"] show ?case
    by (simp add: ts)
qed

text \<open>
  For markers at strictly increasing positive samples, the accumulated times are the
  edited times of the markers: \<open>sample2Time\<close> at each marker's own sample.
\<close>

lemma sample2TimeLoop_at_marker:
  assumes "sorted_wrt (<) (ps # map sample ms)" and "i < length ms"
  shows "sample2TimeLoop sr (sample (ms ! i)) ps pt ms = markerTimes sr ps pt ms ! i"
  using assms
proof (induction ms arbitrary: ps pt i)
  case Nil
  then show ?case by simp
next
  case (Cons m ms)
  from Cons.prems(1) have lt: "ps < sample m" and rest: "sorted_wrt (<) (sample m # map sample ms)"
    by simp_all
  show ?case
  proof (cases i)
    case 0
    with lt show ?thesis by (simp add: Let_def)
  next
    case (Suc j)
    with Cons.prems(2) have j: "j < length ms" by simp
    with rest have "sample m < sample (ms ! j)" by simp
    with Cons.IH[OF rest j] Suc show ?thesis by (simp add: Let_def)
  qed
qed

lemma markerTimes_sample2Time:
  assumes "sorted_wrt (<) (0 # map sample ms)" and "i < length ms"
  shows "markerTimes sr 0 0 ms ! i = sample2Time sr ms (sample (ms ! i))"
proof -
  from assms have "0 < sample (ms ! i)" by simp
  with sample2TimeLoop_at_marker[OF assms, of sr 0] show ?thesis
    by (simp add: sample2Time_def)
qed

lemma knotTimes_nonneg:
  assumes "sorted_wrt (<) (knotTimes sr ms)" and "i < length (knotTimes sr ms)"
  shows "0 \<le> knotTimes sr ms ! i"
proof (cases i)
  case 0
  then show ?thesis by (simp add: knotTimes_def)
next
  case (Suc j)
  with assms show ?thesis by (auto simp: knotTimes_def less_imp_le)
qed

lemma last_knotTimes_nonneg:
  assumes "sorted_wrt (<) (knotTimes sr ms)"
  shows "0 \<le> last (knotTimes sr ms)"
proof -
  have ne: "knotTimes sr ms \<noteq> []" by (simp add: knotTimes_def)
  have "last (knotTimes sr ms) = knotTimes sr ms ! (length (knotTimes sr ms) - 1)"
    by (rule last_conv_nth[OF ne])
  moreover have "length (knotTimes sr ms) - 1 < length (knotTimes sr ms)"
    using ne by simp
  ultimately show ?thesis using knotTimes_nonneg[OF assms] by simp
qed

text \<open>
  The curve of the uncached value: with strictly increasing knot times it is the
  piecewise-linear interpolation of the knots, then the decay to 0 at \<open>duration()\<close>.
\<close>

lemma time2PitchBendUncached_curve:
  assumes "sorted_wrt (<) (knotTimes sr ms)"
  shows "(val \<le> 0 \<longrightarrow> time2PitchBendUncached sr ms n val = 0)
       \<and> (\<forall>i < length ms. knotTimes sr ms ! i < val \<and> val \<le> knotTimes sr ms ! Suc i \<longrightarrow>
            time2PitchBendUncached sr ms n val =
              knotBends ms ! i
              + (val - knotTimes sr ms ! i) * (knotBends ms ! Suc i - knotBends ms ! i)
                / (knotTimes sr ms ! Suc i - knotTimes sr ms ! i))
       \<and> (last (knotTimes sr ms) < val \<and> val \<le> duration sr ms n \<longrightarrow>
            time2PitchBendUncached sr ms n val =
              last (knotBends ms)
              + (val - last (knotTimes sr ms)) * (0 - last (knotBends ms))
                / (duration sr ms n - last (knotTimes sr ms)))
       \<and> (last (knotTimes sr ms) < val \<and> duration sr ms n < val \<longrightarrow>
            time2PitchBendUncached sr ms n val = 0)"
proof (intro conjI allI impI)
  assume "val \<le> 0"
  then show "time2PitchBendUncached sr ms n val = 0" by (simp add: time2PitchBendUncached_def)
next
  fix i
  assume i: "i < length ms"
    and iv: "knotTimes sr ms ! i < val \<and> val \<le> knotTimes sr ms ! Suc i"
  from i have "i < length (knotTimes sr ms)"
    by (simp add: knotTimes_def length_markerTimes)
  from knotTimes_nonneg[OF assms this] iv have pos: "0 < val" by simp
  from assms iv
  have "time2PitchBendLoop sr (duration sr ms n) val 0 0 0 ms =
          (0 # map pitchBend ms) ! i
          + (val - (0 # markerTimes sr 0 0 ms) ! i)
            * ((0 # map pitchBend ms) ! Suc i - (0 # map pitchBend ms) ! i)
            / ((0 # markerTimes sr 0 0 ms) ! Suc i - (0 # markerTimes sr 0 0 ms) ! i)"
    unfolding knotTimes_def by (intro time2PitchBendLoop_segment i) simp_all
  with pos show "time2PitchBendUncached sr ms n val =
              knotBends ms ! i
              + (val - knotTimes sr ms ! i) * (knotBends ms ! Suc i - knotBends ms ! i)
                / (knotTimes sr ms ! Suc i - knotTimes sr ms ! i)"
    by (simp add: time2PitchBendUncached_def knotTimes_def knotBends_def)
next
  assume a: "last (knotTimes sr ms) < val \<and> val \<le> duration sr ms n"
  with last_knotTimes_nonneg[OF assms] have pos: "0 < val" by simp
  from assms a
  have "time2PitchBendLoop sr (duration sr ms n) val 0 0 0 ms =
          time2PitchBendLoop sr (duration sr ms n) val (last (0 # map sample ms))
            (last (0 # markerTimes sr 0 0 ms)) (last (0 # map pitchBend ms)) []"
    unfolding knotTimes_def by (intro time2PitchBendLoop_tail) simp_all
  with pos a show "time2PitchBendUncached sr ms n val =
              last (knotBends ms)
              + (val - last (knotTimes sr ms)) * (0 - last (knotBends ms))
                / (duration sr ms n - last (knotTimes sr ms))"
    by (simp add: time2PitchBendUncached_def knotTimes_def knotBends_def)
next
  assume a: "last (knotTimes sr ms) < val \<and> duration sr ms n < val"
  with last_knotTimes_nonneg[OF assms] have pos: "0 < val" by simp
  from assms a
  have "time2PitchBendLoop sr (duration sr ms n) val 0 0 0 ms =
          time2PitchBendLoop sr (duration sr ms n) val (last (0 # map sample ms))
            (last (0 # markerTimes sr 0 0 ms)) (last (0 # map pitchBend ms)) []"
    unfolding knotTimes_def by (intro time2PitchBendLoop_tail) simp_all
  with pos a show "time2PitchBendUncached sr ms n val = 0"
    by (simp add: time2PitchBendUncached_def)
qed

section \<open>Properties of the caches\<close>

lemma cachesValid_emptyCaches: "cachesValid sr ms n emptyCaches"
  by (simp add: cachesValid_def emptyCaches_def)


lemma cachesValid_sample2TimeD:
  "cachesValid sr ms n c \<Longrightarrow> sample2TimeCache c k = Some r \<Longrightarrow> r = sample2Time sr ms k"
  unfolding cachesValid_def by blast

lemma cachesValid_time2SampleD:
  "cachesValid sr ms n c \<Longrightarrow> time2SampleCache c k = Some r \<Longrightarrow>
   \<exists>t. 0 < t \<and> truncInt (t * real_of_int sr) = k \<and> r = time2SampleUncached sr ms t"
  unfolding cachesValid_def by blast

lemma cachesValid_time2PitchBendD:
  "cachesValid sr ms n c \<Longrightarrow> time2PitchBendCache c k = Some r \<Longrightarrow>
   \<exists>t. 0 < t \<and> truncInt (t * real_of_int sr) = k \<and> r = time2PitchBendUncached sr ms n t"
  unfolding cachesValid_def by blast

lemma cachesValid_store_sample2Time:
  assumes "cachesValid sr ms n c"
  shows "cachesValid sr ms n
           (c\<lparr>sample2TimeCache := (sample2TimeCache c)(k \<mapsto> sample2Time sr ms k)\<rparr>)"
  using assms unfolding cachesValid_def by simp

lemma cachesValid_store_time2Sample:
  assumes "cachesValid sr ms n c" and "0 < t"
  shows "cachesValid sr ms n
           (c\<lparr>time2SampleCache :=
                 (time2SampleCache c)(truncInt (t * real_of_int sr) \<mapsto> time2SampleUncached sr ms t)\<rparr>)"
  using assms unfolding cachesValid_def by auto

lemma cachesValid_store_time2PitchBend:
  assumes "cachesValid sr ms n c" and "0 < t"
  shows "cachesValid sr ms n
           (c\<lparr>time2PitchBendCache :=
                 (time2PitchBendCache c)
                   (truncInt (t * real_of_int sr) \<mapsto> time2PitchBendUncached sr ms n t)\<rparr>)"
  using assms unfolding cachesValid_def by auto

lemma sample2TimeCached_value:
  assumes "cachesValid sr ms n c"
  shows "fst (sample2TimeCached sr ms s c) = sample2Time sr ms s"
proof (cases "s \<le> 0")
  case True
  then show ?thesis by (simp add: sample2TimeCached_def sample2Time_def)
next
  case False
  show ?thesis
  proof (cases "sample2TimeCache c s")
    case None
    with False show ?thesis by (simp add: sample2TimeCached_def sample2Time_def Let_def)
  next
    case (Some r)
    with False cachesValid_sample2TimeD[OF assms Some] show ?thesis
      by (simp add: sample2TimeCached_def)
  qed
qed

lemma sample2TimeCached_valid:
  assumes "cachesValid sr ms n c"
  shows "cachesValid sr ms n (snd (sample2TimeCached sr ms s c))"
proof (cases "s \<le> 0 \<or> sample2TimeCache c s \<noteq> None")
  case True
  with assms show ?thesis
    by (auto simp: sample2TimeCached_def split: option.splits)
next
  case False
  then have "sample2TimeLoop sr s 0 0 ms = sample2Time sr ms s"
    by (simp add: sample2Time_def)
  with False cachesValid_store_sample2Time[OF assms, of s] show ?thesis
    by (simp add: sample2TimeCached_def Let_def)
qed

lemma durationCached_value:
  "cachesValid sr ms n c \<Longrightarrow> fst (durationCached sr ms k c) = duration sr ms k"
  by (simp add: durationCached_def duration_def sample2TimeCached_value)

lemma durationCached_valid:
  "cachesValid sr ms n c \<Longrightarrow> cachesValid sr ms n (snd (durationCached sr ms k c))"
  by (simp add: durationCached_def sample2TimeCached_valid)

lemma time2SampleCached_valid:
  assumes "cachesValid sr ms n c"
  shows "cachesValid sr ms n (snd (time2SampleCached sr ms t c))"
proof (cases "t \<le> 0 \<or> time2SampleCache c (truncInt (t * real_of_int sr)) \<noteq> None")
  case True
  with assms show ?thesis
    by (auto simp: time2SampleCached_def split: option.splits)
next
  case False
  then have pos: "0 < t" by simp
  then have "truncInt (time2SampleLoop sr t 0 0 ms) = time2SampleUncached sr ms t"
    by (simp add: time2SampleUncached_def)
  with False cachesValid_store_time2Sample[OF assms pos] show ?thesis
    by (simp add: time2SampleCached_def Let_def)
qed

lemma time2SampleCached_miss:
  assumes "t \<le> 0 \<or> time2SampleCache c (truncInt (t * real_of_int sr)) = None"
  shows "fst (time2SampleCached sr ms t c) = time2SampleUncached sr ms t"
  using assms by (auto simp: time2SampleCached_def time2SampleUncached_def Let_def)

lemma time2PitchBendLoop_walk:
  "time2PitchBendLoop sr d val ps pt ppb ms =
     (case time2PitchBendWalk sr val ps pt ppb ms of
        Inl r \<Rightarrow> r
      | Inr (pt', ppb') \<Rightarrow>
          if val > d then 0 else ppb' + (val - pt') * (0 - ppb') / (d - pt'))"
  by (induction ms arbitrary: ps pt ppb) (simp_all add: Let_def)

text \<open>On a miss the cached \<open>time2PitchBend\<close> computes the uncached value.\<close>

lemma time2PitchBendCached_miss:
  assumes "cachesValid sr ms n c"
    and "t \<le> 0 \<or> time2PitchBendCache c (truncInt (t * real_of_int sr)) = None"
  shows "fst (time2PitchBendCached sr ms n t c) = time2PitchBendUncached sr ms n t"
proof (cases "t \<le> 0")
  case True
  then show ?thesis by (simp add: time2PitchBendCached_def time2PitchBendUncached_def)
next
  case False
  with assms(2) have miss: "time2PitchBendCache c (truncInt (t * real_of_int sr)) = None"
    by simp
  let ?c1 = "snd (durationCached sr ms n c)"
  have d1: "fst (durationCached sr ms n c) = duration sr ms n"
    by (rule durationCached_value[OF assms(1)])
  have d2: "fst (durationCached sr ms n ?c1) = duration sr ms n"
    by (rule durationCached_value[OF durationCached_valid[OF assms(1)]])
  show ?thesis
  proof (cases "time2PitchBendWalk sr t 0 0 0 ms")
    case (Inl r)
    with False miss show ?thesis
      by (simp add: time2PitchBendCached_def time2PitchBendUncached_def time2PitchBendLoop_walk)
  next
    case (Inr p)
    obtain pt ppb where p: "p = (pt, ppb)" by (cases p)
    from False miss Inr p d1 d2 show ?thesis
      by (simp add: time2PitchBendCached_def time2PitchBendUncached_def time2PitchBendLoop_walk
                    Let_def split_beta)
  qed
qed

lemma time2PitchBendCached_valid:
  assumes "cachesValid sr ms n c"
  shows "cachesValid sr ms n (snd (time2PitchBendCached sr ms n t c))"
proof (cases "t \<le> 0 \<or> time2PitchBendCache c (truncInt (t * real_of_int sr)) \<noteq> None")
  case True
  with assms show ?thesis
    by (auto simp: time2PitchBendCached_def split: option.splits)
next
  case False
  then have pos: "0 < t"
    and miss: "time2PitchBendCache c (truncInt (t * real_of_int sr)) = None"
    by simp_all
  let ?k = "truncInt (t * real_of_int sr)"
  let ?c1 = "snd (durationCached sr ms n c)"
  let ?c2 = "snd (durationCached sr ms n ?c1)"
  have v1: "cachesValid sr ms n ?c1" by (rule durationCached_valid[OF assms])
  have v2: "cachesValid sr ms n ?c2" by (rule durationCached_valid[OF v1])
  have d1: "fst (durationCached sr ms n c) = duration sr ms n"
    by (rule durationCached_value[OF assms])
  have d2: "fst (durationCached sr ms n ?c1) = duration sr ms n"
    by (rule durationCached_value[OF v1])
  have val: "fst (time2PitchBendCached sr ms n t c) = time2PitchBendUncached sr ms n t"
    using assms miss by (intro time2PitchBendCached_miss) simp_all
  have pb1: "time2PitchBendCache ?c1 = time2PitchBendCache c"
    by (simp add: durationCached_def sample2TimeCached_def Let_def split: option.splits)
  have pb2: "time2PitchBendCache ?c2 = time2PitchBendCache c"
    using pb1 by (simp add: durationCached_def sample2TimeCached_def Let_def split: option.splits)
  show ?thesis
  proof (cases "time2PitchBendWalk sr t 0 0 0 ms")
    case (Inl r)
    with pos miss val have r: "r = time2PitchBendUncached sr ms n t"
      by (simp add: time2PitchBendCached_def)
    from Inl pos miss cachesValid_store_time2PitchBend[OF assms pos] show ?thesis
      by (simp add: time2PitchBendCached_def r)
  next
    case (Inr p)
    obtain pt ppb where p: "p = (pt, ppb)" by (cases p)
    show ?thesis
    proof (cases "t > duration sr ms n")
      case True
      with Inr p pos miss d1 v1 show ?thesis
        by (simp add: time2PitchBendCached_def Let_def split_beta)
    next
      case False
      with Inr p pos miss d1 d2 val
      have r: "ppb + (t - pt) * (0 - ppb) / (duration sr ms n - pt) = time2PitchBendUncached sr ms n t"
        by (simp add: time2PitchBendCached_def Let_def split_beta)
      from False Inr p pos miss d1 d2 cachesValid_store_time2PitchBend[OF v2 pos] show ?thesis
        by (simp add: time2PitchBendCached_def Let_def split_beta r[symmetric])
    qed
  qed
qed


lemma time2SampleCached_hit:
  assumes "cachesValid sr ms n c"
  shows "\<exists>t'. truncInt (t' * real_of_int sr) = truncInt (t * real_of_int sr)
              \<and> (t \<le> 0 \<or> time2SampleCache c (truncInt (t * real_of_int sr)) = None \<longrightarrow> t' = t)
              \<and> fst (time2SampleCached sr ms t c) = time2SampleUncached sr ms t'"
proof (cases "t \<le> 0 \<or> time2SampleCache c (truncInt (t * real_of_int sr)) = None")
  case True
  then have "fst (time2SampleCached sr ms t c) = time2SampleUncached sr ms t"
    by (rule time2SampleCached_miss)
  then show ?thesis by (intro exI[of _ t]) simp
next
  case False
  then have pos: "0 < t" by simp
  from False obtain r where hit: "time2SampleCache c (truncInt (t * real_of_int sr)) = Some r"
    by (cases "time2SampleCache c (truncInt (t * real_of_int sr))") simp_all
  from cachesValid_time2SampleD[OF assms hit] obtain t' where
    k: "truncInt (t' * real_of_int sr) = truncInt (t * real_of_int sr)"
    and r: "r = time2SampleUncached sr ms t'"
    by (elim exE conjE)
  from pos hit have "fst (time2SampleCached sr ms t c) = r"
    by (simp add: time2SampleCached_def)
  with k r pos hit show ?thesis by (intro exI[of _ t']) simp
qed

lemma time2PitchBendCached_hit:
  assumes "cachesValid sr ms n c"
  shows "\<exists>t'. truncInt (t' * real_of_int sr) = truncInt (t * real_of_int sr)
              \<and> (t \<le> 0 \<or> time2PitchBendCache c (truncInt (t * real_of_int sr)) = None \<longrightarrow> t' = t)
              \<and> fst (time2PitchBendCached sr ms n t c) = time2PitchBendUncached sr ms n t'"
proof (cases "t \<le> 0 \<or> time2PitchBendCache c (truncInt (t * real_of_int sr)) = None")
  case True
  then have "fst (time2PitchBendCached sr ms n t c) = time2PitchBendUncached sr ms n t"
    by (rule time2PitchBendCached_miss[OF assms])
  then show ?thesis by (intro exI[of _ t]) simp
next
  case False
  then have pos: "0 < t" by simp
  from False obtain r where hit: "time2PitchBendCache c (truncInt (t * real_of_int sr)) = Some r"
    by (cases "time2PitchBendCache c (truncInt (t * real_of_int sr))") simp_all
  from cachesValid_time2PitchBendD[OF assms hit] obtain t' where
    k: "truncInt (t' * real_of_int sr) = truncInt (t * real_of_int sr)"
    and r: "r = time2PitchBendUncached sr ms n t'"
    by (elim exE conjE)
  from pos hit have "fst (time2PitchBendCached sr ms n t c) = r"
    by (simp add: time2PitchBendCached_def)
  with k r pos hit show ?thesis by (intro exI[of _ t']) simp
qed

text \<open>
  Claim C8, as stated: whatever was answered and cached before, each memoized function
  returns the value of the uncached function of the current marker list. It fails for
  the two functions keyed by quantized time. At 48 kHz, with one marker at sample 48000
  (\<open>dTime = -0.5\<close>, \<open>pitchBend = 12\<close>) and freshly cleared caches, the times
  \<open>1/64000\<close> and \<open>1/192000\<close> both have key 0: once the first is answered, the
  second gets the first one's sample (1, not 0) and bend (\<open>3/8000\<close>, not \<open>1/8000\<close>).
\<close>

theorem cached_time_queries_counterexample:
  "fst (time2SampleCached 48000 [\<lparr>sample = 48000, noteOf = 0, dTime = - 1 / 2, pitchBend = 12\<rparr>]
          (1 / 192000)
          (snd (time2SampleCached 48000
                  [\<lparr>sample = 48000, noteOf = 0, dTime = - 1 / 2, pitchBend = 12\<rparr>]
                  (1 / 64000) emptyCaches)))
     \<noteq> time2SampleUncached 48000 [\<lparr>sample = 48000, noteOf = 0, dTime = - 1 / 2, pitchBend = 12\<rparr>]
          (1 / 192000)
   \<and> fst (time2PitchBendCached 48000
            [\<lparr>sample = 48000, noteOf = 0, dTime = - 1 / 2, pitchBend = 12\<rparr>] 96001
            (1 / 192000)
            (snd (time2PitchBendCached 48000
                    [\<lparr>sample = 48000, noteOf = 0, dTime = - 1 / 2, pitchBend = 12\<rparr>] 96001
                    (1 / 64000) emptyCaches)))
     \<noteq> time2PitchBendUncached 48000
          [\<lparr>sample = 48000, noteOf = 0, dTime = - 1 / 2, pitchBend = 12\<rparr>] 96001
          (1 / 192000)"
  by (simp add: time2SampleCached_def time2SampleUncached_def time2PitchBendCached_def
                time2PitchBendUncached_def emptyCaches_def truncInt_def Let_def)

text \<open>
  Claim C8, amended: as long as the caches hold only answers computed from the current
  marker list (true after every \<open>invalidateCache\<close>, and kept by every query), the
  memoized \<open>sample2Time\<close> returns exactly the uncached value; the memoized
  \<open>time2Sample\<close> and \<open>time2PitchBend\<close> return the uncached value at some time with
  the same quantized key as the query: the query itself when it is \<open>\<le> 0\<close> or its key
  is not cached, otherwise the earlier query that filled the entry.
\<close>

theorem cached_queries_refine:
  assumes "cachesValid sr ms n c"
  shows "fst (sample2TimeCached sr ms s c) = sample2Time sr ms s
       \<and> cachesValid sr ms n (snd (sample2TimeCached sr ms s c))
       \<and> (\<exists>t'. truncInt (t' * real_of_int sr) = truncInt (t * real_of_int sr)
              \<and> (t \<le> 0 \<or> time2SampleCache c (truncInt (t * real_of_int sr)) = None \<longrightarrow> t' = t)
              \<and> fst (time2SampleCached sr ms t c) = time2SampleUncached sr ms t')
       \<and> cachesValid sr ms n (snd (time2SampleCached sr ms t c))
       \<and> (\<exists>t'. truncInt (t' * real_of_int sr) = truncInt (t * real_of_int sr)
              \<and> (t \<le> 0 \<or> time2PitchBendCache c (truncInt (t * real_of_int sr)) = None \<longrightarrow> t' = t)
              \<and> fst (time2PitchBendCached sr ms n t c) = time2PitchBendUncached sr ms n t')
       \<and> cachesValid sr ms n (snd (time2PitchBendCached sr ms n t c))"
  using assms
  by (intro conjI sample2TimeCached_value sample2TimeCached_valid time2SampleCached_hit
            time2SampleCached_valid time2PitchBendCached_hit time2PitchBendCached_valid)
theorem cached_queries_refine_witness:
  "cachesValid 48000 [\<lparr>sample = 48000, noteOf = 0, dTime = - 1 / 2, pitchBend = 12\<rparr>] 96001
     (snd (time2PitchBendCached 48000
             [\<lparr>sample = 48000, noteOf = 0, dTime = - 1 / 2, pitchBend = 12\<rparr>] 96001 (1 / 64000)
             (snd (time2SampleCached 48000
                     [\<lparr>sample = 48000, noteOf = 0, dTime = - 1 / 2, pitchBend = 12\<rparr>]
                     (1 / 64000) emptyCaches))))
   \<and> time2SampleCache
        (snd (time2PitchBendCached 48000
                [\<lparr>sample = 48000, noteOf = 0, dTime = - 1 / 2, pitchBend = 12\<rparr>] 96001 (1 / 64000)
                (snd (time2SampleCached 48000
                        [\<lparr>sample = 48000, noteOf = 0, dTime = - 1 / 2, pitchBend = 12\<rparr>]
                        (1 / 64000) emptyCaches))))
        (truncInt (1 / 192000 * real_of_int 48000)) = Some 1
   \<and> time2PitchBendCache
        (snd (time2PitchBendCached 48000
                [\<lparr>sample = 48000, noteOf = 0, dTime = - 1 / 2, pitchBend = 12\<rparr>] 96001 (1 / 64000)
                (snd (time2SampleCached 48000
                        [\<lparr>sample = 48000, noteOf = 0, dTime = - 1 / 2, pitchBend = 12\<rparr>]
                        (1 / 64000) emptyCaches))))
        (truncInt (1 / 192000 * real_of_int 48000)) = Some (3 / 8000)
   \<and> (\<exists>t'. truncInt (t' * real_of_int 48000) = truncInt (1 / 192000 * real_of_int 48000)
          \<and> fst (time2SampleCached 48000
                   [\<lparr>sample = 48000, noteOf = 0, dTime = - 1 / 2, pitchBend = 12\<rparr>] (1 / 192000)
                   (snd (time2PitchBendCached 48000
                           [\<lparr>sample = 48000, noteOf = 0, dTime = - 1 / 2, pitchBend = 12\<rparr>] 96001
                           (1 / 64000)
                           (snd (time2SampleCached 48000
                                   [\<lparr>sample = 48000, noteOf = 0, dTime = - 1 / 2, pitchBend = 12\<rparr>]
                                   (1 / 64000) emptyCaches)))))
              = time2SampleUncached 48000
                  [\<lparr>sample = 48000, noteOf = 0, dTime = - 1 / 2, pitchBend = 12\<rparr>] t')
   \<and> (\<exists>t'. truncInt (t' * real_of_int 48000) = truncInt (1 / 192000 * real_of_int 48000)
          \<and> fst (time2PitchBendCached 48000
                   [\<lparr>sample = 48000, noteOf = 0, dTime = - 1 / 2, pitchBend = 12\<rparr>] 96001
                   (1 / 192000)
                   (snd (time2PitchBendCached 48000
                           [\<lparr>sample = 48000, noteOf = 0, dTime = - 1 / 2, pitchBend = 12\<rparr>] 96001
                           (1 / 64000)
                           (snd (time2SampleCached 48000
                                   [\<lparr>sample = 48000, noteOf = 0, dTime = - 1 / 2, pitchBend = 12\<rparr>]
                                   (1 / 64000) emptyCaches)))))
              = time2PitchBendUncached 48000
                  [\<lparr>sample = 48000, noteOf = 0, dTime = - 1 / 2, pitchBend = 12\<rparr>] 96001 t')
   \<and> fst (sample2TimeCached 48000
            [\<lparr>sample = 48000, noteOf = 0, dTime = - 1 / 2, pitchBend = 12\<rparr>] 24000
            (snd (time2PitchBendCached 48000
                    [\<lparr>sample = 48000, noteOf = 0, dTime = - 1 / 2, pitchBend = 12\<rparr>] 96001
                    (1 / 64000)
                    (snd (time2SampleCached 48000
                            [\<lparr>sample = 48000, noteOf = 0, dTime = - 1 / 2, pitchBend = 12\<rparr>]
                            (1 / 64000) emptyCaches)))))
       = sample2Time 48000 [\<lparr>sample = 48000, noteOf = 0, dTime = - 1 / 2, pitchBend = 12\<rparr>] 24000"
proof -
  let ?ms = "[\<lparr>sample = 48000, noteOf = 0, dTime = - 1 / 2, pitchBend = 12\<rparr>]"
  let ?c1 = "snd (time2SampleCached 48000 ?ms (1 / 64000) emptyCaches)"
  let ?c2 = "snd (time2PitchBendCached 48000 ?ms 96001 (1 / 64000) ?c1)"
  have v0: "cachesValid 48000 ?ms 96001 emptyCaches"
    by (simp add: cachesValid_def emptyCaches_def)
  have v1: "cachesValid 48000 ?ms 96001 ?c1"
    using cached_queries_refine[OF v0, of 0 "1 / 64000"] by (elim conjE)
  have v2: "cachesValid 48000 ?ms 96001 ?c2"
    using cached_queries_refine[OF v1, of 0 "1 / 64000"] by (elim conjE)
  have k: "truncInt (1 / 192000 * real_of_int 48000) = 0"
    by (simp add: truncInt_def)
  have c1: "time2SampleCache ?c1 0 = Some 1" "time2PitchBendCache ?c1 0 = None"
    by (simp_all add: time2SampleCached_def emptyCaches_def truncInt_def Let_def)
  have hs: "time2SampleCache ?c2 0 = Some 1"
    using c1 by (simp add: time2PitchBendCached_def truncInt_def Let_def)
  have hp: "time2PitchBendCache ?c2 0 = Some (3 / 8000)"
    using c1 by (simp add: time2PitchBendCached_def truncInt_def Let_def)
  note r = cached_queries_refine[OF v2, of 24000 "1 / 192000"]
  from r have a: "fst (sample2TimeCached 48000 ?ms 24000 ?c2) = sample2Time 48000 ?ms 24000"
    by (elim conjE)
  from r have b: "\<exists>t'. truncInt (t' * real_of_int 48000) = truncInt (1 / 192000 * real_of_int 48000)
          \<and> fst (time2SampleCached 48000 ?ms (1 / 192000) ?c2) = time2SampleUncached 48000 ?ms t'"
    by (elim conjE exE) (rule exI, rule conjI, assumption, assumption)
  from r have c: "\<exists>t'. truncInt (t' * real_of_int 48000) = truncInt (1 / 192000 * real_of_int 48000)
          \<and> fst (time2PitchBendCached 48000 ?ms 96001 (1 / 192000) ?c2)
              = time2PitchBendUncached 48000 ?ms 96001 t'"
    by (elim conjE exE) (rule exI, rule conjI, assumption, assumption)
  from v2 hs hp a b c show ?thesis
    unfolding k by (intro conjI)
qed

section \<open>The pitch-bend curve as the program answers it\<close>

text \<open>
  Claim C2, as stated: \<open>time2PitchBend\<close> is 0 for every edited time before the first
  marker's edited time. It fails: with one marker at sample 48000 (edited time 1 s at
  48 kHz) and \<open>pitchBend = 2\<close>, and freshly cleared caches, the bend at 0.5 s is
  already 1.
\<close>

theorem time2PitchBend_zero_before_first_marker_counterexample:
  "1 / 2 < fst (sample2TimeCached 48000
                 [\<lparr>sample = 48000, noteOf = 0, dTime = 0, pitchBend = 2\<rparr>] 48000 emptyCaches)
   \<and> fst (time2PitchBendCached 48000
            [\<lparr>sample = 48000, noteOf = 0, dTime = 0, pitchBend = 2\<rparr>] 96001 (1 / 2) emptyCaches)
       \<noteq> 0"
  by (simp add: time2PitchBendCached_def sample2TimeCached_def durationCached_def
                emptyCaches_def truncInt_def Let_def)

text \<open>
  Claim C2, amended: let the knot times (0, then the markers' edited times) be strictly
  increasing and let the caches hold only answers of the current marker list. Then
  \<open>time2PitchBend\<close>, asked at \<open>val\<close>, returns the value of the following curve at a
  time \<open>t'\<close> in the same sample-rate tick as \<open>val\<close>, and \<open>t' = val\<close> whenever
  \<open>val \<le> 0\<close> or the tick of \<open>val\<close> is not in the cache (as for every first query
  after a marker edit). The curve is 0 at times \<open>\<le> 0\<close>; between two consecutive
  knots it is the linear interpolation of their bends, so before the first marker it
  ramps linearly from 0 at time 0 to the first marker's \<open>pitchBend\<close>; after the last
  marker it decays linearly from the last \<open>pitchBend\<close> to 0 at \<open>duration()\<close>; and it
  is 0 at every time after the last marker that is greater than \<open>duration()\<close>.
\<close>

theorem time2PitchBend_curve:
  assumes "sorted_wrt (<) (knotTimes sr ms)" and "cachesValid sr ms n c"
  shows "\<exists>t'. truncInt (t' * real_of_int sr) = truncInt (val * real_of_int sr)
       \<and> (val \<le> 0 \<or> time2PitchBendCache c (truncInt (val * real_of_int sr)) = None \<longrightarrow> t' = val)
       \<and> (t' \<le> 0 \<longrightarrow> fst (time2PitchBendCached sr ms n val c) = 0)
       \<and> (\<forall>i < length ms. knotTimes sr ms ! i < t' \<and> t' \<le> knotTimes sr ms ! Suc i \<longrightarrow>
            fst (time2PitchBendCached sr ms n val c) =
              knotBends ms ! i
              + (t' - knotTimes sr ms ! i) * (knotBends ms ! Suc i - knotBends ms ! i)
                / (knotTimes sr ms ! Suc i - knotTimes sr ms ! i))
       \<and> (last (knotTimes sr ms) < t' \<and> t' \<le> duration sr ms n \<longrightarrow>
            fst (time2PitchBendCached sr ms n val c) =
              last (knotBends ms)
              + (t' - last (knotTimes sr ms)) * (0 - last (knotBends ms))
                / (duration sr ms n - last (knotTimes sr ms)))
       \<and> (last (knotTimes sr ms) < t' \<and> duration sr ms n < t' \<longrightarrow>
            fst (time2PitchBendCached sr ms n val c) = 0)"
proof -
  from time2PitchBendCached_hit[OF assms(2), of val] obtain t' where
    key: "truncInt (t' * real_of_int sr) = truncInt (val * real_of_int sr)"
    and miss: "val \<le> 0 \<or> time2PitchBendCache c (truncInt (val * real_of_int sr)) = None \<longrightarrow> t' = val"
    and res: "fst (time2PitchBendCached sr ms n val c) = time2PitchBendUncached sr ms n t'"
    by (elim exE conjE)
  note curve = time2PitchBendUncached_curve[OF assms(1), of t' n]
  from curve have c1: "t' \<le> 0 \<longrightarrow> fst (time2PitchBendCached sr ms n val c) = 0"
    unfolding res by (elim conjE)
  from curve have c2: "\<forall>i < length ms. knotTimes sr ms ! i < t' \<and> t' \<le> knotTimes sr ms ! Suc i \<longrightarrow>
            fst (time2PitchBendCached sr ms n val c) =
              knotBends ms ! i
              + (t' - knotTimes sr ms ! i) * (knotBends ms ! Suc i - knotBends ms ! i)
                / (knotTimes sr ms ! Suc i - knotTimes sr ms ! i)"
    unfolding res by (elim conjE)
  from curve have c3: "last (knotTimes sr ms) < t' \<and> t' \<le> duration sr ms n \<longrightarrow>
            fst (time2PitchBendCached sr ms n val c) =
              last (knotBends ms)
              + (t' - last (knotTimes sr ms)) * (0 - last (knotBends ms))
                / (duration sr ms n - last (knotTimes sr ms))"
    unfolding res by (elim conjE)
  from curve have c4: "last (knotTimes sr ms) < t' \<and> duration sr ms n < t' \<longrightarrow>
            fst (time2PitchBendCached sr ms n val c) = 0"
    unfolding res by (elim conjE)
  from key miss c1 c2 c3 c4 show ?thesis
    by (intro exI[of _ t'] conjI)
qed

theorem time2PitchBend_curve_witness:
  "sorted_wrt (<) (knotTimes 48000 [\<lparr>sample = 48000, noteOf = 0, dTime = - 1 / 2, pitchBend = 12\<rparr>])
   \<and> cachesValid 48000 [\<lparr>sample = 48000, noteOf = 0, dTime = - 1 / 2, pitchBend = 12\<rparr>] 96001
        (snd (time2PitchBendCached 48000
                [\<lparr>sample = 48000, noteOf = 0, dTime = - 1 / 2, pitchBend = 12\<rparr>] 96001
                (1 / 64000) emptyCaches))
   \<and> time2PitchBendCache
        (snd (time2PitchBendCached 48000
                [\<lparr>sample = 48000, noteOf = 0, dTime = - 1 / 2, pitchBend = 12\<rparr>] 96001
                (1 / 64000) emptyCaches))
        (truncInt (1 / 192000 * real_of_int 48000)) = Some (3 / 8000)
   \<and> fst (time2PitchBendCached 48000
            [\<lparr>sample = 48000, noteOf = 0, dTime = - 1 / 2, pitchBend = 12\<rparr>] 96001 (1 / 4)
            (snd (time2PitchBendCached 48000
                    [\<lparr>sample = 48000, noteOf = 0, dTime = - 1 / 2, pitchBend = 12\<rparr>] 96001
                    (1 / 64000) emptyCaches))) = 6
   \<and> fst (time2PitchBendCached 48000
            [\<lparr>sample = 48000, noteOf = 0, dTime = - 1 / 2, pitchBend = 12\<rparr>] 96001 1
            (snd (time2PitchBendCached 48000
                    [\<lparr>sample = 48000, noteOf = 0, dTime = - 1 / 2, pitchBend = 12\<rparr>] 96001
                    (1 / 64000) emptyCaches))) = 6
   \<and> (\<exists>t'. truncInt (t' * real_of_int 48000) = truncInt (1 / 192000 * real_of_int 48000)
          \<and> (0 < t' \<and> t' \<le> 1 / 2 \<longrightarrow>
               fst (time2PitchBendCached 48000
                      [\<lparr>sample = 48000, noteOf = 0, dTime = - 1 / 2, pitchBend = 12\<rparr>] 96001
                      (1 / 192000)
                      (snd (time2PitchBendCached 48000
                              [\<lparr>sample = 48000, noteOf = 0, dTime = - 1 / 2, pitchBend = 12\<rparr>]
                              96001 (1 / 64000) emptyCaches))) = 24 * t'))"
proof -
  let ?ms = "[\<lparr>sample = 48000, noteOf = 0, dTime = - 1 / 2, pitchBend = 12\<rparr>]"
  let ?c = "snd (time2PitchBendCached 48000 ?ms 96001 (1 / 64000) emptyCaches)"
  have kt: "knotTimes 48000 ?ms = [0, 1 / 2]" by (simp add: knotTimes_def)
  have kb: "knotBends ?ms = [0, 12]" by (simp add: knotBends_def)
  have du: "duration 48000 ?ms 96001 = 3 / 2" by (simp add: duration_def sample2Time_def)
  have h1: "sorted_wrt (<) (knotTimes 48000 ?ms)" unfolding kt by simp
  have h2: "cachesValid 48000 ?ms 96001 ?c"
    by (rule time2PitchBendCached_valid[OF cachesValid_emptyCaches])
  have pc: "time2PitchBendCache ?c = [0 \<mapsto> 3 / 8000]"
    by (simp add: time2PitchBendCached_def emptyCaches_def truncInt_def Let_def)
  have hit: "time2PitchBendCache ?c (truncInt (1 / 192000 * real_of_int 48000)) = Some (3 / 8000)"
    unfolding pc by (simp add: truncInt_def)
  have m1: "time2PitchBendCache ?c (truncInt (1 / 4 * real_of_int 48000)) = None"
    unfolding pc by (simp add: truncInt_def)
  have m2: "time2PitchBendCache ?c (truncInt (1 * real_of_int 48000)) = None"
    unfolding pc by (simp add: truncInt_def)
  from time2PitchBend_curve[OF h1 h2, of "1 / 4"] m1
  have a: "fst (time2PitchBendCached 48000 ?ms 96001 (1 / 4) ?c) = 6"
    unfolding kt kb by (elim exE conjE) simp
  from time2PitchBend_curve[OF h1 h2, of 1] m2
  have b: "fst (time2PitchBendCached 48000 ?ms 96001 1 ?c) = 6"
    unfolding kt kb du by (elim exE conjE) simp
  from time2PitchBend_curve[OF h1 h2, of "1 / 192000"]
  obtain t' where k: "truncInt (t' * real_of_int 48000) = truncInt (1 / 192000 * real_of_int 48000)"
    and seg: "\<forall>i < length ?ms. knotTimes 48000 ?ms ! i < t' \<and> t' \<le> knotTimes 48000 ?ms ! Suc i \<longrightarrow>
            fst (time2PitchBendCached 48000 ?ms 96001 (1 / 192000) ?c) =
              knotBends ?ms ! i
              + (t' - knotTimes 48000 ?ms ! i) * (knotBends ?ms ! Suc i - knotBends ?ms ! i)
                / (knotTimes 48000 ?ms ! Suc i - knotTimes 48000 ?ms ! i)"
    by (elim exE conjE)
  from seg have "0 < t' \<and> t' \<le> 1 / 2 \<longrightarrow>
                 fst (time2PitchBendCached 48000 ?ms 96001 (1 / 192000) ?c) = 24 * t'"
    unfolding kt kb by simp
  with k have c: "\<exists>t'. truncInt (t' * real_of_int 48000) = truncInt (1 / 192000 * real_of_int 48000)
          \<and> (0 < t' \<and> t' \<le> 1 / 2 \<longrightarrow>
               fst (time2PitchBendCached 48000 ?ms 96001 (1 / 192000) ?c) = 24 * t')"
    by (intro exI[of _ t'] conjI)
  from h1 h2 hit a b c show ?thesis by (intro conjI)
qed


section \<open>Duration after one marker\<close>



section \<open>Properties of the grain size\<close>

lemma maxFreqOf_ge_1: "1 \<le> maxFreqOf sr b"
  by (simp add: maxFreqOf_def)

lemma truncInt_ge:
  assumes "real_of_int k \<le> x" and "0 \<le> k"
  shows "k \<le> truncInt x"
proof -
  from assms have "0 \<le> x" by linarith
  with assms(1) show ?thesis by (simp add: truncInt_def le_floor_iff)
qed

text \<open>
  Claim C7: \<open>estimateGrainSize\<close> returns (converted to \<open>int\<close>)
  \<open>ceil(preferred * maxFreq / sampleRate) * sampleRate / maxFreq\<close> with
  \<open>preferred = 1500\<close> and \<open>maxFreq = max(1, binIndex * sampleRate / 8192 / 4)\<close>; the
  result is a positive whole number of periods \<open>sampleRate / maxFreq\<close>, truncated, and
  it is at least 1500. Rounding of the \<open>double\<close> arithmetic is not modelled.
\<close>

theorem estimateGrainSize_formula:
  assumes "0 < sr"
  shows "maxFreqOf sr (peakBin sr output)
           = max 1 (real_of_int (peakBin sr output) * real_of_int sr / 8192 / 4)
       \<and> estimateGrainSize sr output
           = truncInt (real_of_int \<lceil>1500 * maxFreqOf sr (peakBin sr output) / real_of_int sr\<rceil>
                        * real_of_int sr / maxFreqOf sr (peakBin sr output))
       \<and> (\<exists>k\<ge>1. estimateGrainSize sr output
                  = truncInt (real_of_int k * (real_of_int sr / maxFreqOf sr (peakBin sr output))))
       \<and> 1500 \<le> estimateGrainSize sr output"
proof -
  define f where "f = maxFreqOf sr (peakBin sr output)"
  define k where "k = \<lceil>1500 * f / real_of_int sr\<rceil>"
  have f1: "1 \<le> f" unfolding f_def by (rule maxFreqOf_ge_1)
  then have fpos: "0 < f" by simp
  from assms have srpos: "0 < real_of_int sr" by simp
  have est: "estimateGrainSize sr output = truncInt (real_of_int k * real_of_int sr / f)"
    by (simp add: estimateGrainSize_def preferredGrainSize_def f_def k_def Let_def)
  have xpos: "0 < 1500 * f / real_of_int sr"
    using fpos srpos by simp
  then have k1: "1 \<le> k" unfolding k_def by linarith
  have "1500 * f / real_of_int sr \<le> real_of_int k"
    unfolding k_def by (rule le_of_int_ceiling)
  then have "1500 * f \<le> real_of_int k * real_of_int sr"
    using srpos by (simp add: pos_divide_le_eq)
  then have "1500 \<le> real_of_int k * real_of_int sr / f"
    using fpos by (simp add: pos_le_divide_eq)
  then have "(1500::int) \<le> truncInt (real_of_int k * real_of_int sr / f)"
    by (intro truncInt_ge) simp_all
  with est have ge: "1500 \<le> estimateGrainSize sr output" by simp
  have mf: "maxFreqOf sr (peakBin sr output)
              = max 1 (real_of_int (peakBin sr output) * real_of_int sr / 8192 / 4)"
    by (simp add: maxFreqOf_def GrainSpectrSize_def)
  have mult: "\<exists>k\<ge>1. estimateGrainSize sr output = truncInt (real_of_int k * (real_of_int sr / f))"
    using est k1 by (intro exI[of _ k]) simp
  from mf est ge mult show ?thesis
    unfolding f_def k_def by simp
qed

theorem estimateGrainSize_formula_witness:
  "(0::int) < 48000 \<and> 1500 \<le> estimateGrainSize 48000 (\<lambda>i. 0)"
proof -
  have h: "(0::int) < 48000" by simp
  from estimateGrainSize_formula[OF h, of "\<lambda>i. 0"]
  have "1500 \<le> estimateGrainSize 48000 (\<lambda>i. 0)" by (elim conjE)
  with h show ?thesis by (intro conjI)
qed

section \<open>Properties of the audio callback\<close>

lemma zeroFill_result:
  "zeroFill dur mem w tr =
     (\<lambda>a. if w \<le> a \<and> a < w + int dur then 0 else mem a,
      w + int dur,
      tr @ map (\<lambda>i. w + int i) [0..<dur])"
proof (induction dur arbitrary: mem w tr)
  case 0
  have "(\<lambda>a. if w \<le> a \<and> a < w then 0 else mem a) = mem"
    by (rule ext) auto
  then show ?case by simp
next
  case (Suc dur)
  have m: "(\<lambda>a. if w + 1 \<le> a \<and> a < w + 1 + int dur then 0 else (mem(w := 0)) a)
           = (\<lambda>a. if w \<le> a \<and> a < w + int (Suc dur) then 0 else mem a)"
    by (rule ext) auto
  have t: "[w] @ map (\<lambda>i. w + 1 + int i) [0..<dur] = map (\<lambda>i. w + int i) [0..<Suc dur]"
    by (simp add: upt_conv_Cons map_Suc_upt[symmetric] del: upt_Suc)
  have "zeroFill (Suc dur) mem w tr = zeroFill dur (mem(w := 0)) (w + 1) (tr @ [w])"
    by simp
  also have "\<dots> = (\<lambda>a. if w + 1 \<le> a \<and> a < w + 1 + int dur then 0 else (mem(w := 0)) a,
                    w + 1 + int dur, (tr @ [w]) @ map (\<lambda>i. w + 1 + int i) [0..<dur])"
    by (rule Suc.IH)
  also have "\<dots> = (\<lambda>a. if w \<le> a \<and> a < w + int (Suc dur) then 0 else mem a,
                    w + int (Suc dur), tr @ map (\<lambda>i. w + int i) [0..<Suc dur])"
    unfolding m using t by (simp del: upt_Suc)
  finally show ?case .
qed

lemma fadeOut_trace:
  "snd (snd (fadeOut k i mem w tr)) = tr @ map (\<lambda>j. w - int j) [0..<k]"
proof (induction k arbitrary: i mem w tr)
  case 0
  then show ?case by simp
next
  case (Suc k)
  have t: "[w] @ map (\<lambda>j. w - 1 - int j) [0..<k] = map (\<lambda>j. w - int j) [0..<Suc k]"
    by (simp add: upt_conv_Cons map_Suc_upt[symmetric] del: upt_Suc)
  have "snd (snd (fadeOut (Suc k) i mem w tr))
        = snd (snd (fadeOut k (i + 1) (mem(w := mem w * (1 / 100 * real i))) (w - 1) (tr @ [w])))"
    by simp
  also have "\<dots> = (tr @ [w]) @ map (\<lambda>j. w - 1 - int j) [0..<k]"
    by (rule Suc.IH)
  also have "\<dots> = tr @ map (\<lambda>j. w - int j) [0..<Suc k]"
    using t by (simp del: upt_Suc)
  finally show ?case .
qed

text \<open>The fade loop multiplies in place, so a zero stays a zero.\<close>

lemma fadeOut_keeps_zero:
  "mem a = 0 \<Longrightarrow> fst (fadeOut k i mem w tr) a = 0"
proof (induction k arbitrary: i mem w tr)
  case 0
  then show ?case by simp
next
  case (Suc k)
  from Suc.prems have "(mem(w := mem w * (1 / 100 * real i))) a = 0" by auto
  then have "fst (fadeOut k (i + 1) (mem(w := mem w * (1 / 100 * real i))) (w - 1) (tr @ [w])) a = 0"
    by (rule Suc.IH)
  then show ?case by simp
qed

text \<open>
  The addresses the stopped branch touches: \<open>0 .. dur - 1\<close> in the zero fill, then
  \<open>dur, dur - 1, .., dur - 99\<close> in the fade loop.
\<close>

lemma stoppedBranch_unfold:
  "stoppedBranch dur mem
     = (fst (fadeOut 100 0 (\<lambda>a. if 0 \<le> a \<and> a < int dur then 0 else mem a) (int dur)
               (map int [0..<dur])),
        snd (snd (fadeOut 100 0 (\<lambda>a. if 0 \<le> a \<and> a < int dur then 0 else mem a) (int dur)
               (map int [0..<dur]))))"
  by (simp add: stoppedBranch_def zeroFill_result split: prod.splits)

lemma stoppedBranch_trace:
  "snd (stoppedBranch dur mem)
     = map int [0..<dur] @ map (\<lambda>j. int dur - int j) [0..<100]"
  unfolding stoppedBranch_unfold snd_conv by (rule fadeOut_trace)

lemma stoppedBranch_zero:
  assumes "0 \<le> a" and "a < int dur"
  shows "fst (stoppedBranch dur mem) a = 0"
  unfolding stoppedBranch_unfold fst_conv
  by (rule fadeOut_keeps_zero) (use assms in simp)


lemma checkCursor_cursorSec [simp]: "cursorSec (checkCursor doc s) = cursorSec s"
  by (simp add: checkCursor_def Let_def split_beta)

lemma checkCursor_restWav [simp]: "restWav (checkCursor doc s) = restWav s"
  by (simp add: checkCursor_def Let_def split_beta)

lemma checkCursor_stays_stopped:
  "\<not> isAudioPlaying s \<Longrightarrow> \<not> isAudioPlaying (checkCursor doc s)"
  by (simp add: checkCursor_def Let_def split_beta)

text \<open>Every callback in the stopped state takes the stopped branch, whatever the fuel.\<close>

lemma playback_stopped:
  assumes "\<not> isAudioPlaying s"
  shows "playback fuel render doc dur mem s =
           Some \<lparr>outcome = Stopped, stream = fst (stoppedBranch dur mem),
                 touched = snd (stoppedBranch dur mem),
                 app = (checkCursor doc s)\<lparr>restWav := []\<rparr>\<rparr>"
  using checkCursor_stays_stopped[OF assms, of doc]
  by (simp add: playback_def Let_def)

text \<open>
  Claim C10 says that every access of the zero-fill loop and of the fade loop of a
  stopped-state callback lies inside the \<open>dur\<close> samples of the stream. The code does
  otherwise: the zero fill leaves \<open>w\<close> one past the end, and the fade loop starts
  there. For every \<open>dur\<close> the callback touches address \<open>dur\<close>.
\<close>

theorem stopped_callback_touches_past_end:
  "map_option touched (playback fuel render doc dur mem (s\<lparr>isAudioPlaying := False\<rparr>))
     = Some (map int [0..<dur] @ map (\<lambda>j. int dur - int j) [0..<100])
   \<and> int dur \<in> set (map int [0..<dur] @ map (\<lambda>j. int dur - int j) [0..<100])"
proof
  have "\<not> isAudioPlaying (s\<lparr>isAudioPlaying := False\<rparr>)" by simp
  from playback_stopped[OF this, of fuel render doc dur mem]
  show "map_option touched (playback fuel render doc dur mem (s\<lparr>isAudioPlaying := False\<rparr>))
          = Some (map int [0..<dur] @ map (\<lambda>j. int dur - int j) [0..<100])"
    by (simp add: stoppedBranch_trace)
next
  have "int dur - int 0 \<in> (\<lambda>j. int dur - int j) ` {0..<100}"
    by (rule imageI) simp
  then show "int dur \<in> set (map int [0..<dur] @ map (\<lambda>j. int dur - int j) [0..<100])"
    by simp
qed

text \<open>The loop never assigns the cursor, and a miss clears the playing flag.\<close>

lemma playLoop_miss:
  "playLoop fuel render doc dur off tmp s = Some (False, s') \<Longrightarrow>
   \<not> isAudioPlaying s' \<and> cursorSec s' = cursorSec s"
proof (induction fuel arbitrary: tmp s)
  case 0
  then show ?case by simp
next
  case (Suc fuel)
  show ?case
  proof (cases "int (length (restWav s)) < int dur + preferredGrainSize")
    case False
    with Suc.prems show ?thesis by simp
  next
    case True
    obtain smp c1 where t2s:
      "time2SampleCached (sampleRate doc) (markers doc) tmp (caches s) = (smp, c1)"
      by (cases "time2SampleCached (sampleRate doc) (markers doc) tmp (caches s)")
    obtain pb c2 where t2p:
      "time2PitchBendCached (sampleRate doc) (markers doc) (dataSize doc) tmp c1 = (pb, c2)"
      by (cases "time2PitchBendCached (sampleRate doc) (markers doc) (dataSize doc) tmp c1")
    show ?thesis
    proof (cases "lower_bound (smp + int off) (grains doc)")
      case None
      with Suc.prems True t2s t2p show ?thesis by auto
    next
      case (Some grain)
      obtain rw c3 sz where r: "render (restWav s) (prevGrain s) c2 tmp pb grain = (rw, c3, sz)"
        by (cases "render (restWav s) (prevGrain s) c2 tmp pb grain")
      from Suc.prems True t2s t2p Some r
      have "playLoop fuel render doc dur off
              (tmp + 1 * real sz / real_of_int (sampleRate doc))
              (s\<lparr>restWav := rw, prevGrain := grain, caches := c3\<rparr>) = Some (False, s')"
        by simp
      from Suc.IH[OF this] show ?thesis by simp
    qed
  qed
qed

text \<open>A miss on the first lookup of the loop leaves \<open>restWav\<close> as it was.\<close>

lemma playLoop_first_miss:
  assumes "playLoop fuel render doc dur off tmp s = Some (False, s')"
    and "lower_bound (fst (time2SampleCached (sampleRate doc) (markers doc) tmp (caches s))
                       + int off) (grains doc) = None"
  shows "restWav s' = restWav s"
proof (cases fuel)
  case 0
  with assms show ?thesis by simp
next
  case (Suc k)
  with assms show ?thesis
    by (auto simp: Let_def split_beta split: if_splits)
qed

lemma time2SampleCached_fst_cong:
  "time2SampleCache c = time2SampleCache c' \<Longrightarrow>
   fst (time2SampleCached sr ms t c) = fst (time2SampleCached sr ms t c')"
  by (simp add: time2SampleCached_def Let_def split: option.splits)

lemma checkCursor_time2SampleCache [simp]:
  "time2SampleCache (caches (checkCursor doc s)) = time2SampleCache (caches s)"
  by (simp add: checkCursor_def durationCached_def sample2TimeCached_def Let_def
           split: option.splits)


text \<open>
  Claim C9, as stated: on a lookup miss the samples already in the residual are still
  delivered to the output before silence. They are not. In the scenario above the miss
  callback returns with the stream untouched and its 1500 samples still in \<open>restWav\<close>;
  the next callback writes zeros and empties \<open>restWav\<close>.
\<close>

theorem residual_delivered_after_miss_counterexample:
  "map_option outcome (playback (Suc 0) idleRender endDoc 1024 (\<lambda>a. 0) endApp)
     = Some EndOfSignal
   \<and> map_option (\<lambda>r. (restWav (app r), stream r 0, stream r 1))
        (playback (Suc 0) idleRender endDoc 1024 (\<lambda>a. 0) endApp)
     = Some (replicate 1500 (1 / 2), 0, 0)
   \<and> map_option (\<lambda>r. (outcome r, restWav (app r), stream r 0, stream r 1))
        (Option.bind (playback (Suc 0) idleRender endDoc 1024 (\<lambda>a. 0) endApp)
           (\<lambda>r. playback (Suc 0) idleRender endDoc 1024 (stream r) (app r)))
     = Some (Stopped, [], 0, 0)"
proof -
  have l: "lower_bound 49500 (grains endDoc) = None"
    by (simp add: lower_bound_def endDoc_def)
  have c: "isAudioPlaying (checkCursor endDoc endApp)"
    by (simp add: checkCursor_def endDoc_def endApp_def durationCached_def
                  sample2TimeCached_def emptyCaches_def Let_def)
  have t: "fst (time2SampleCached 48000 [] 1 (caches (checkCursor endDoc endApp))) = 48000"
    by (simp add: time2SampleCached_def endApp_def emptyCaches_def truncInt_def Let_def)
  obtain s2 where p: "playLoop (Suc 0) idleRender endDoc 1024 1500 1 (checkCursor endDoc endApp)
                      = Some (False, s2)"
    and s2: "s2 = (checkCursor endDoc endApp)\<lparr>isAudioPlaying := False, caches := caches s2\<rparr>"
    using l t
    by (simp add: preferredGrainSize_def Let_def split_beta endDoc_def endApp_def)
  have r2: "restWav s2 = replicate 1500 (1 / 2)"
    by (subst s2) (simp add: endApp_def)
  have np: "\<not> isAudioPlaying s2"
    by (subst s2) simp
  have p1: "playback (Suc 0) idleRender endDoc 1024 (\<lambda>a. 0) endApp
            = Some \<lparr>outcome = EndOfSignal, stream = (\<lambda>a. 0), touched = [], app = s2\<rparr>"
  proof -
    have e: "length (restWav endApp) = 1500" "cursorSec endApp = 1"
      by (simp_all add: endApp_def)
    from c p show ?thesis
      by (simp add: playback_def Let_def e del: playLoop.simps)
  qed
  have z0: "fst (stoppedBranch 1024 (\<lambda>a. 0)) 0 = 0"
    by (rule stoppedBranch_zero) simp_all
  have z1: "fst (stoppedBranch 1024 (\<lambda>a. 0)) 1 = 0"
    by (rule stoppedBranch_zero) simp_all
  show ?thesis
    unfolding p1 using r2 z0 z1 by (simp add: playback_stopped[OF np])
qed

lemma checkCursor_playing:
  assumes "isAudioPlaying s" and "0 \<le> cursorSec s"
    and "cursorSec s < fst (durationCached (sampleRate doc) (markers doc) (dataSize doc) (caches s))"
  shows "isAudioPlaying (checkCursor doc s)"
  using assms by (simp add: checkCursor_def Let_def split_beta)

text \<open>A loop whose lookup number \<open>k\<close> misses returns there, given fuel for it.\<close>

lemma playLoop_on_miss:
  assumes "lookupMisses k render doc dur off tmp s" and "k < fuel"
  shows "\<exists>s'. playLoop fuel render doc dur off tmp s = Some (False, s')
              \<and> (k = 0 \<longrightarrow> restWav s' = restWav s)"
  using assms
proof (induction k arbitrary: fuel tmp s)
  case 0
  then obtain f where f: "fuel = Suc f" by (cases fuel) auto
  from 0(1) show ?case
    unfolding f by (simp add: Let_def split_beta)
next
  case (Suc k)
  then obtain f where f: "fuel = Suc f" and kf: "k < f" by (cases fuel) auto
  obtain smp c1 where t2s:
    "time2SampleCached (sampleRate doc) (markers doc) tmp (caches s) = (smp, c1)"
    by (cases "time2SampleCached (sampleRate doc) (markers doc) tmp (caches s)")
  obtain pb c2 where t2p:
    "time2PitchBendCached (sampleRate doc) (markers doc) (dataSize doc) tmp c1 = (pb, c2)"
    by (cases "time2PitchBendCached (sampleRate doc) (markers doc) (dataSize doc) tmp c1")
  from Suc.prems(1) t2s t2p obtain grain where
    g: "lower_bound (smp + int off) (grains doc) = Some grain"
    by (cases "lower_bound (smp + int off) (grains doc)") simp_all
  obtain rw c3 sz where r: "render (restWav s) (prevGrain s) c2 tmp pb grain = (rw, c3, sz)"
    by (cases "render (restWav s) (prevGrain s) c2 tmp pb grain")
  from Suc.prems(1) t2s t2p g r
  have enter: "int (length (restWav s)) < int dur + preferredGrainSize"
    and rest: "lookupMisses k render doc dur off
                 (tmp + 1 * real sz / real_of_int (sampleRate doc))
                 (s\<lparr>restWav := rw, prevGrain := grain, caches := c3\<rparr>)"
    by simp_all
  from Suc.IH[OF rest kf] obtain s' where
    "playLoop f render doc dur off (tmp + 1 * real sz / real_of_int (sampleRate doc))
       (s\<lparr>restWav := rw, prevGrain := grain, caches := c3\<rparr>) = Some (False, s')"
    by blast
  with enter t2s t2p g r show ?case
    unfolding f by simp
qed

text \<open>
  Claim C9, amended: when a grain lookup of a playback callback finds no grain (the
  engine is playing, the cursor is inside \<open>[0, duration())\<close>, and lookup number \<open>k\<close> of
  the loop is the first to miss), the callback returns at once with the engine
  stopped; it writes nothing to the stream, delivers nothing, leaves the cursor where
  it was and, when the miss is the first lookup, leaves \<open>restWav\<close> as it was. Every
  following callback takes the stopped branch: the first one already fills the \<open>dur\<close>
  output samples with zeros and empties \<open>restWav\<close>, so the samples waiting there are
  dropped, not played.
\<close>

theorem lookup_miss_stops_and_drops_residual:
  assumes "isAudioPlaying s" and "0 \<le> cursorSec s"
    and "cursorSec s < fst (durationCached (sampleRate doc) (markers doc) (dataSize doc) (caches s))"
    and "lookupMisses k render doc dur (length (restWav s)) (cursorSec s) (checkCursor doc s)"
    and "k < fuel"
  shows "\<exists>r. playback fuel render doc dur mem s = Some r
            \<and> outcome r = EndOfSignal
            \<and> \<not> isAudioPlaying (app r) \<and> cursorSec (app r) = cursorSec s
            \<and> stream r = mem \<and> touched r = []
            \<and> (k = 0 \<longrightarrow> restWav (app r) = restWav s)
            \<and> (\<exists>r2. playback fuel2 render doc dur2 (stream r) (app r) = Some r2
                    \<and> outcome r2 = Stopped \<and> restWav (app r2) = []
                    \<and> \<not> isAudioPlaying (app r2) \<and> cursorSec (app r2) = cursorSec s
                    \<and> (\<forall>a. 0 \<le> a \<and> a < int dur2 \<longrightarrow> stream r2 a = 0))"
proof -
  have playing: "isAudioPlaying (checkCursor doc s)"
    by (rule checkCursor_playing[OF assms(1-3)])
  from playLoop_on_miss[OF assms(4,5)] obtain s2 where
    loop: "playLoop fuel render doc dur (length (restWav s)) (cursorSec s) (checkCursor doc s)
             = Some (False, s2)"
    and first: "k = 0 \<longrightarrow> restWav s2 = restWav s"
    by auto
  have pb: "playback fuel render doc dur mem s
             = Some \<lparr>outcome = EndOfSignal, stream = mem, touched = [], app = s2\<rparr>"
    using playing loop by (simp add: playback_def Let_def del: playLoop.simps)
  from playLoop_miss[OF loop] have np: "\<not> isAudioPlaying s2" and cur: "cursorSec s2 = cursorSec s"
    by simp_all
  let ?r2 = "\<lparr>outcome = Stopped, stream = fst (stoppedBranch dur2 mem),
              touched = snd (stoppedBranch dur2 mem),
              app = (checkCursor doc s2)\<lparr>restWav := []\<rparr>\<rparr>"
  have next_cb: "playback fuel2 render doc dur2 mem s2 = Some ?r2"
    by (rule playback_stopped[OF np])
  have stopped2: "\<not> isAudioPlaying (app ?r2)"
    using checkCursor_stays_stopped[OF np, of doc] by simp
  have zeros: "\<forall>a. 0 \<le> a \<and> a < int dur2 \<longrightarrow> stream ?r2 a = 0"
    by (simp add: stoppedBranch_zero)
  have second: "\<exists>r2. playback fuel2 render doc dur2 mem s2 = Some r2
                    \<and> outcome r2 = Stopped \<and> restWav (app r2) = []
                    \<and> \<not> isAudioPlaying (app r2) \<and> cursorSec (app r2) = cursorSec s
                    \<and> (\<forall>a. 0 \<le> a \<and> a < int dur2 \<longrightarrow> stream r2 a = 0)"
    using next_cb stopped2 zeros cur by (intro exI[of _ ?r2]) simp
  show ?thesis
    using pb np cur first second
    by (intro exI[of _ "\<lparr>outcome = EndOfSignal, stream = mem, touched = [], app = s2\<rparr>"]) simp
qed


theorem lookup_miss_stops_and_drops_residual_witness:
  "isAudioPlaying startApp \<and> 0 \<le> cursorSec startApp
   \<and> cursorSec startApp
       < fst (durationCached (sampleRate endDoc) (markers endDoc) (dataSize endDoc)
                (caches startApp))
   \<and> lookupMisses (Suc 0) plainRender endDoc 1024 (length (restWav startApp))
         (cursorSec startApp) (checkCursor endDoc startApp)
   \<and> Suc 0 < Suc (Suc 0)
   \<and> (\<exists>r. playback (Suc (Suc 0)) plainRender endDoc 1024 (\<lambda>a. 0) startApp = Some r
          \<and> outcome r = EndOfSignal \<and> \<not> isAudioPlaying (app r) \<and> cursorSec (app r) = 0
          \<and> stream r = (\<lambda>a. 0) \<and> touched r = []
          \<and> (\<exists>r2. playback 0 plainRender endDoc 1024 (stream r) (app r) = Some r2
                  \<and> outcome r2 = Stopped \<and> restWav (app r2) = []
                  \<and> (\<forall>a. 0 \<le> a \<and> a < int 1024 \<longrightarrow> stream r2 a = 0)))"
proof -
  have h1: "isAudioPlaying startApp" and h2: "0 \<le> cursorSec startApp"
    by (simp_all add: startApp_def)
  have h3: "cursorSec startApp
            < fst (durationCached (sampleRate endDoc) (markers endDoc) (dataSize endDoc)
                     (caches startApp))"
    by (simp add: startApp_def endDoc_def durationCached_def sample2TimeCached_def
                  emptyCaches_def Let_def)
  have cc: "time2SampleCache (caches (checkCursor endDoc startApp)) = Map.empty"
    by (simp add: startApp_def emptyCaches_def)
  have f1: "time2SampleCached 48000 [] 0 c = (0, c)" for c
    by (simp add: time2SampleCached_def truncInt_def)
  have f2: "time2PitchBendCached 48000 [] 96000 0 c = (0, c)" for c
    by (simp add: time2PitchBendCached_def)
  have f3: "fst (time2SampleCached 48000 [] (1 / 32) c) = 1500"
    if "time2SampleCache c = Map.empty" for c
    using that by (simp add: time2SampleCached_def truncInt_def Let_def)
  have d: "sampleRate endDoc = 48000" "markers endDoc = []" "dataSize endDoc = 96000"
    "grains endDoc = [\<lparr>startSample = 0, spanLen = 1500, drift = 0\<rparr>]"
    by (simp_all add: endDoc_def)
  have a: "cursorSec startApp = 0" "restWav startApp = []"
    by (simp_all add: startApp_def)
  have h4: "lookupMisses (Suc 0) plainRender endDoc 1024 (length (restWav startApp))
              (cursorSec startApp) (checkCursor endDoc startApp)"
    by (simp add: a d f1 f2 f3[OF cc] plainRender_def lower_bound_def preferredGrainSize_def)
  have h5: "Suc 0 < Suc (Suc 0)" by simp
  from lookup_miss_stops_and_drops_residual[OF h1 h2 h3 h4 h5, of "\<lambda>a. 0" 0 1024]
  have "\<exists>r. playback (Suc (Suc 0)) plainRender endDoc 1024 (\<lambda>a. 0) startApp = Some r
          \<and> outcome r = EndOfSignal \<and> \<not> isAudioPlaying (app r) \<and> cursorSec (app r) = 0
          \<and> stream r = (\<lambda>a. 0) \<and> touched r = []
          \<and> (\<exists>r2. playback 0 plainRender endDoc 1024 (stream r) (app r) = Some r2
                  \<and> outcome r2 = Stopped \<and> restWav (app r2) = []
                  \<and> (\<forall>a. 0 \<le> a \<and> a < int 1024 \<longrightarrow> stream r2 a = 0))"
    by (elim exE conjE) (simp add: startApp_def)
  with h1 h2 h3 h4 h5 show ?thesis by (intro conjI)
qed


section \<open>Properties of the segmentation\<close>

lemma cdiv_nonneg: "0 \<le> a \<Longrightarrow> 0 < b \<Longrightarrow> cdiv a b = a div b"
  by (cases "a = 0") (simp_all add: cdiv_def)

lemma cdiv_nonpos: "a \<le> 0 \<Longrightarrow> 0 < b \<Longrightarrow> cdiv a b = - ((- a) div b)"
  by (cases "a = 0") (simp_all add: cdiv_def)

lemma isZeroCrossing_True:
  "isZeroCrossing data i = Inr True \<Longrightarrow> zeroCrossingAt data i"
  by (auto simp: isZeroCrossing_def zeroCrossingAt_def split: if_splits)

lemma searchNear_found:
  "searchNear data start gs todo = Inr (Some idx) \<Longrightarrow>
   zeroCrossingAt data idx
   \<and> (\<exists>i\<in>set todo. idx = start + gs + (if i mod 2 = 0 then cdiv (int i) 2 else cdiv (- int i) 2))"
proof (induction todo)
  case Nil
  then show ?case by simp
next
  case (Cons i rest)
  let ?idx = "start + gs + (if i mod 2 = 0 then cdiv (int i) 2 else cdiv (- int i) 2)"
  show ?case
  proof (cases "isZeroCrossing data ?idx")
    case (Inl e)
    with Cons.prems show ?thesis by (simp add: Let_def)
  next
    case (Inr b)
    show ?thesis
    proof (cases b)
      case True
      with Inr Cons.prems have "idx = ?idx" by (simp add: Let_def)
      moreover from Inr True have "zeroCrossingAt data ?idx"
        by (intro isZeroCrossing_True) simp
      ultimately show ?thesis by simp
    next
      case False
      with Inr Cons.prems have "searchNear data start gs rest = Inr (Some idx)"
        by (simp add: Let_def)
      from Cons.IH[OF this] show ?thesis by auto
    qed
  qed
qed

lemma near_offset_after_start:
  assumes "i < nat gs"
  shows "start < start + gs + (if i mod 2 = 0 then cdiv (int i) 2 else cdiv (- int i) 2)"
proof -
  from assms have "int i < gs" by linarith
  moreover have "int i div 2 \<le> int i" by simp
  ultimately have "0 < gs - int i div 2" by linarith
  moreover have "0 \<le> int i div 2" by simp
  ultimately have "0 < gs - int i div 2 \<and> 0 < gs + int i div 2" by linarith
  then show ?thesis by (simp add: cdiv_nonneg cdiv_nonpos)
qed

lemma searchForward_found:
  "searchForward data todo = Inr (Some i) \<Longrightarrow> zeroCrossingAt data i \<and> i \<in> set todo"
proof (induction todo)
  case Nil
  then show ?case by simp
next
  case (Cons j rest)
  show ?case
  proof (cases "isZeroCrossing data j")
    case (Inl e)
    with Cons.prems show ?thesis by simp
  next
    case (Inr b)
    show ?thesis
    proof (cases b)
      case True
      with Inr Cons.prems have "i = j" by simp
      moreover from Inr True have "zeroCrossingAt data j"
        by (intro isZeroCrossing_True) simp
      ultimately show ?thesis by simp
    next
      case False
      with Inr Cons.prems have "searchForward data rest = Inr (Some i)" by simp
      from Cons.IH[OF this] show ?thesis by simp
    qed
  qed
qed

lemma insertGrain_append:
  "\<forall>h\<in>set gs. startSample h < startSample g \<Longrightarrow> insertGrain g gs = gs @ [g]"
  by (induction gs) simp_all

lemma chainEnd_ge: "grainChain data s gs \<Longrightarrow> s \<le> chainEnd s gs"
proof (induction gs arbitrary: s)
  case Nil
  then show ?case by simp
next
  case (Cons g gs)
  then have "s + spanLen g \<le> chainEnd (s + spanLen g) gs" by simp
  with Cons.prems show ?case by simp
qed

lemma grainChain_keys_below_end:
  "grainChain data s gs \<Longrightarrow> h \<in> set gs \<Longrightarrow> startSample h < chainEnd s gs"
proof (induction gs arbitrary: s)
  case Nil
  then show ?case by simp
next
  case (Cons g gs)
  from Cons.prems(1) have rest: "grainChain data (s + spanLen g) gs"
    and g: "startSample g = s" "0 < spanLen g" by simp_all
  show ?case
  proof (cases "h = g")
    case True
    with g chainEnd_ge[OF rest] show ?thesis by simp
  next
    case False
    with Cons.prems(2) have "h \<in> set gs" by simp
    from Cons.IH[OF rest this] show ?thesis by simp
  qed
qed

lemma grainChain_snoc:
  "grainChain data s gs \<Longrightarrow> startSample g = chainEnd s gs \<Longrightarrow> 0 < spanLen g \<Longrightarrow>
   zeroCrossingAt data (chainEnd s gs + spanLen g) \<Longrightarrow> grainChain data s (gs @ [g])"
  by (induction gs arbitrary: s) simp_all

lemma chainEnd_snoc: "chainEnd s (gs @ [g]) = chainEnd s gs + spanLen g"
  by (induction gs arbitrary: s) simp_all

text \<open>One stored grain keeps the run a chain that ends at the new \<open>start\<close>.\<close>

lemma storeGrain_chain:
  assumes "grainChain data 0 gs" and "start = chainEnd 0 gs" and "start < idx"
    and "zeroCrossingAt data idx" and "\<forall>s. 1 \<le> est s" and "1 \<le> gsz"
    and "storeGrain est start gsz ne gs idx = (start', gsz', ne', gs')"
  shows "grainChain data 0 gs' \<and> start' = chainEnd 0 gs' \<and> start' = idx \<and> 1 \<le> gsz'"
proof -
  let ?g = "\<lparr>startSample = start, spanLen = idx - start, drift = idx - start - gsz\<rparr>"
  have "\<forall>h\<in>set gs. startSample h < startSample ?g"
    using grainChain_keys_below_end[OF assms(1)] assms(2) by simp
  then have ins: "insertGrain ?g gs = gs @ [?g]" by (rule insertGrain_append)
  have chain: "grainChain data 0 (gs @ [?g])"
    using assms(1-4) by (intro grainChain_snoc) simp_all
  have e: "chainEnd 0 (gs @ [?g]) = idx"
    using assms(2) by (simp add: chainEnd_snoc)
  from assms(7) have "gs' = gs @ [?g]" "start' = idx"
    unfolding storeGrain_def ins by (auto simp: Let_def split: if_splits)
  moreover from assms(5,6,7) have "1 \<le> gsz'"
    unfolding storeGrain_def ins by (auto simp: Let_def split: if_splits)
  ultimately show ?thesis using chain e by simp
qed


text \<open>
  What a round finds, from either search: a zero-crossing strictly after \<open>start\<close>.
\<close>

lemma searchNear_after_start:
  assumes "searchNear data start gsz [0..<nat gsz] = Inr (Some idx)"
  shows "zeroCrossingAt data idx \<and> start < idx"
proof -
  from searchNear_found[OF assms] obtain i where
    z: "zeroCrossingAt data idx" and i: "i \<in> set [0..<nat gsz]"
    and idx: "idx = start + gsz + (if i mod 2 = 0 then cdiv (int i) 2 else cdiv (- int i) 2)"
    by blast
  from i have "i < nat gsz" by simp
  from near_offset_after_start[OF this, of start] idx z show ?thesis by simp
qed

lemma searchForward_after_start:
  assumes "searchForward data [start + gsz + cdiv gsz 2 .. hi] = Inr (Some i)" and "1 \<le> gsz"
  shows "zeroCrossingAt data i \<and> start < i"
proof -
  from searchForward_found[OF assms(1)] have z: "zeroCrossingAt data i"
    and i: "start + gsz + cdiv gsz 2 \<le> i" by simp_all
  from assms(2) have "0 \<le> cdiv gsz 2" by (simp add: cdiv_nonneg)
  with i assms(2) z show ?thesis by simp
qed

text \<open>The loop invariant: the stored grains are a chain from sample 0 up to \<open>start\<close>.\<close>

lemma preprocLoop_chain:
  assumes "preprocLoop fuel est data start gsz ne gs = Some (Inr res)"
    and "grainChain data 0 gs" and "start = chainEnd 0 gs"
    and "\<forall>s. 1 \<le> est s" and "1 \<le> gsz"
  shows "grainChain data 0 res"
  using assms
proof (induction fuel arbitrary: start gsz ne gs)
  case 0
  then show ?case by simp
next
  case (Suc fuel)
  note step = Suc.prems(1)
  show ?case
  proof (cases "start < int (length data) - gsz - 1")
    case False
    with step Suc.prems(2) show ?thesis by simp
  next
    case inside: True
    show ?thesis
    proof (cases "searchNear data start gsz [0..<nat gsz]")
      case (Inl e)
      with step inside show ?thesis by simp
    next
      case (Inr found)
      show ?thesis
      proof (cases found)
        case (Some idx)
        obtain start' gsz' ne' gs' where
          st: "storeGrain est start gsz ne gs idx = (start', gsz', ne', gs')"
          by (cases "storeGrain est start gsz ne gs idx")
        from Inr Some searchNear_after_start have hit: "zeroCrossingAt data idx \<and> start < idx"
          by simp
        from storeGrain_chain[OF Suc.prems(2,3) _ _ Suc.prems(4,5) st] hit
        have inv: "grainChain data 0 gs'" "start' = chainEnd 0 gs'" "1 \<le> gsz'" by simp_all
        from step inside Inr Some st
        have "preprocLoop fuel est data start' gsz' ne' gs' = Some (Inr res)" by simp
        from Suc.IH[OF this inv(1,2) Suc.prems(4) inv(3)] show ?thesis .
      next
        case None
        let ?todo = "[start + gsz + cdiv gsz 2 .. int (length data) - 1 - 1]"
        show ?thesis
        proof (cases "searchForward data ?todo")
          case (Inl e)
          with step inside Inr None show ?thesis by simp
        next
          case fwd: (Inr found2)
          show ?thesis
          proof (cases found2)
            case None
            with step inside Inr \<open>found = None\<close> fwd Suc.prems(2) show ?thesis by simp
          next
            case (Some i)
            obtain start' gsz' ne' gs' where
              st: "storeGrain est start gsz ne gs i = (start', gsz', ne', gs')"
              by (cases "storeGrain est start gsz ne gs i")
            from fwd Some searchForward_after_start[OF _ Suc.prems(5)]
            have hit: "zeroCrossingAt data i \<and> start < i" by simp
            from storeGrain_chain[OF Suc.prems(2,3) _ _ Suc.prems(4,5) st] hit
            have inv: "grainChain data 0 gs'" "start' = chainEnd 0 gs'" "1 \<le> gsz'" by simp_all
            from step inside Inr \<open>found = None\<close> fwd Some st
            have "preprocLoop fuel est data start' gsz' ne' gs' = Some (Inr res)" by simp
            from Suc.IH[OF this inv(1,2) Suc.prems(4) inv(3)] show ?thesis .
          qed
        qed
      qed
    qed
  qed
qed

lemma storeGrain_start:
  "storeGrain est start gsz ne gs idx = (start', gsz', ne', gs') \<Longrightarrow>
   start' = idx \<and> (gsz' = gsz \<or> gsz' = est idx)"
  by (auto simp: storeGrain_def Let_def split: if_splits)

text \<open>
  With positive grain sizes every round that goes on moves \<open>start\<close> forward and keeps
  it inside the buffer, so the loop ends before the fuel does.
\<close>

lemma preprocLoop_total:
  assumes "\<forall>s. 1 \<le> est s" and "1 \<le> gsz" and "nat (int (length data) - start) < fuel"
  shows "preprocLoop fuel est data start gsz ne gs \<noteq> None"
  using assms
proof (induction fuel arbitrary: start gsz ne gs)
  case 0
  then show ?case by simp
next
  case (Suc fuel)
  have next_round: "preprocLoop fuel est data start' gsz' ne' gs' \<noteq> None"
    if st: "storeGrain est start gsz ne gs idx = (start', gsz', ne', gs')"
      and hit: "zeroCrossingAt data idx \<and> start < idx"
    for idx start' gsz' ne' gs'
  proof -
    from storeGrain_start[OF st] have s': "start' = idx" and g: "gsz' = gsz \<or> gsz' = est idx"
      by simp_all
    from g Suc.prems(1,2) have g1: "1 \<le> gsz'" by auto
    from hit have "idx + 1 < int (length data)" by (simp add: zeroCrossingAt_def)
    with hit Suc.prems(3) s' have "nat (int (length data) - start') < fuel" by linarith
    from Suc.IH[OF Suc.prems(1) g1 this] show ?thesis .
  qed
  show ?case
  proof (cases "start < int (length data) - gsz - 1")
    case False
    then show ?thesis by simp
  next
    case inside: True
    show ?thesis
    proof (cases "searchNear data start gsz [0..<nat gsz]")
      case (Inl e)
      with inside show ?thesis by simp
    next
      case (Inr found)
      show ?thesis
      proof (cases found)
        case (Some idx)
        obtain start' gsz' ne' gs' where
          st: "storeGrain est start gsz ne gs idx = (start', gsz', ne', gs')"
          by (cases "storeGrain est start gsz ne gs idx")
        from Inr Some searchNear_after_start have "zeroCrossingAt data idx \<and> start < idx"
          by simp
        from next_round[OF st this] inside Inr Some st show ?thesis by simp
      next
        case None
        let ?todo = "[start + gsz + cdiv gsz 2 .. int (length data) - 1 - 1]"
        show ?thesis
        proof (cases "searchForward data ?todo")
          case (Inl e)
          with inside Inr None show ?thesis by simp
        next
          case fwd: (Inr found2)
          show ?thesis
          proof (cases found2)
            case None
            with inside Inr \<open>found = None\<close> fwd show ?thesis by simp
          next
            case (Some i)
            obtain start' gsz' ne' gs' where
              st: "storeGrain est start gsz ne gs i = (start', gsz', ne', gs')"
              by (cases "storeGrain est start gsz ne gs i")
            from fwd Some searchForward_after_start[OF _ Suc.prems(2)]
            have "zeroCrossingAt data i \<and> start < i" by simp
            from next_round[OF st this] inside Inr \<open>found = None\<close> fwd Some st
            show ?thesis by simp
          qed
        qed
      qed
    qed
  qed
qed

text \<open>A chain read by index.\<close>

lemma grainChain_ends:
  "grainChain data s gs \<Longrightarrow> i < length gs \<Longrightarrow>
   zeroCrossingAt data (startSample (gs ! i) + spanLen (gs ! i))"
proof (induction gs arbitrary: s i)
  case Nil
  then show ?case by simp
next
  case (Cons g gs)
  then show ?case by (cases i) auto
qed

lemma grainChain_hd: "grainChain data s gs \<Longrightarrow> gs \<noteq> [] \<Longrightarrow> startSample (hd gs) = s"
  by (cases gs) simp_all

lemma grainChain_contiguous:
  "grainChain data s gs \<Longrightarrow> Suc i < length gs \<Longrightarrow>
   startSample (gs ! Suc i) = startSample (gs ! i) + spanLen (gs ! i)"
proof (induction gs arbitrary: s i)
  case Nil
  then show ?case by simp
next
  case (Cons g gs)
  from Cons.prems(1) have g: "startSample g = s"
    and rest: "grainChain data (s + spanLen g) gs" by simp_all
  show ?case
  proof (cases i)
    case 0
    with Cons.prems(2) have "gs \<noteq> []" by auto
    from grainChain_hd[OF rest this] 0 g \<open>gs \<noteq> []\<close> show ?thesis
      by (simp add: hd_conv_nth)
  next
    case (Suc j)
    with Cons.prems(2) have "Suc j < length gs" by simp
    from Cons.IH[OF rest this] Suc show ?thesis by simp
  qed
qed


text \<open>Two evaluation rules for concrete runs.\<close>

lemma searchNear_first:
  assumes "0 < gsz" and "isZeroCrossing data (start + gsz) = Inr True"
  shows "searchNear data start gsz [0..<nat gsz] = Inr (Some (start + gsz))"
proof -
  from assms(1) have "[0..<nat gsz] = 0 # [Suc 0..<nat gsz]"
    by (simp add: upt_conv_Cons)
  with assms(2) show ?thesis by (simp add: cdiv_def)
qed

lemma preprocLoop_exit:
  assumes "0 < fuel" and "\<not> start < int (length data) - gsz - 1"
  shows "preprocLoop fuel est data start gsz ne gs = Some (Inr gs)"
  using assms by (cases fuel) simp_all

lemma preprocLoop_near:
  assumes "start < int (length data) - gsz - 1" and "0 < gsz"
    and "isZeroCrossing data (start + gsz) = Inr True" and "\<not> start + gsz > ne"
  shows "preprocLoop (Suc fuel) est data start gsz ne gs =
           preprocLoop fuel est data (start + gsz) gsz ne
             (insertGrain \<lparr>startSample = start, spanLen = gsz, drift = 0\<rparr> gs)"
  using assms(1,4) searchNear_first[OF assms(2,3)]
  by (simp add: storeGrain_def Let_def)

lemma twoGrainData_samples:
  "length twoGrainData = 3002"
  "twoGrainData ! 0 = 1"
  "twoGrainData ! 1500 = - 1" "twoGrainData ! 1501 = 1"
  "twoGrainData ! 3000 = - 1" "twoGrainData ! 3001 = 1"
  by (simp_all add: twoGrainData_def nth_append)

lemma twoGrainData_run:
  "preproc (\<lambda>s. 1500) twoGrainData
     = Some (Inr [\<lparr>startSample = 0, spanLen = 1500, drift = 0\<rparr>,
                  \<lparr>startSample = 1500, spanLen = 1500, drift = 0\<rparr>])"
proof -
  have z1: "isZeroCrossing twoGrainData (0 + 1500) = Inr True"
    by (simp add: isZeroCrossing_def twoGrainData_samples)
  have z2: "isZeroCrossing twoGrainData (1500 + 1500) = Inr True"
    by (simp add: isZeroCrossing_def twoGrainData_samples)
  have f: "Suc (length twoGrainData) = Suc (Suc 3001)"
    by (simp add: twoGrainData_samples)
  have r1: "preprocLoop (Suc (Suc 3001)) (\<lambda>s. 1500) twoGrainData 0 1500 8192 []
            = preprocLoop (Suc 3001) (\<lambda>s. 1500) twoGrainData (0 + 1500) 1500 8192
                (insertGrain \<lparr>startSample = 0, spanLen = 1500, drift = 0\<rparr> [])"
    by (rule preprocLoop_near[OF _ _ z1]) (simp_all add: twoGrainData_samples)
  have r2: "preprocLoop (Suc 3001) (\<lambda>s. 1500) twoGrainData 1500 1500 8192
              [\<lparr>startSample = 0, spanLen = 1500, drift = 0\<rparr>]
            = preprocLoop 3001 (\<lambda>s. 1500) twoGrainData (1500 + 1500) 1500 8192
                (insertGrain \<lparr>startSample = 1500, spanLen = 1500, drift = 0\<rparr>
                   [\<lparr>startSample = 0, spanLen = 1500, drift = 0\<rparr>])"
    by (rule preprocLoop_near[OF _ _ z2]) (simp_all add: twoGrainData_samples)
  have r3: "preprocLoop 3001 (\<lambda>s. 1500) twoGrainData 3000 1500 8192 gs = Some (Inr gs)" for gs
    by (rule preprocLoop_exit) (simp_all add: twoGrainData_samples)
  show ?thesis
    unfolding preproc_def f GrainSpectrSize_def
    using r1 r2 r3 by simp
qed

text \<open>
  Claim C1, as stated: every grain's span starts and ends at a true zero-crossing. It
  fails for the first grain of every pass, which starts at sample 0 whatever the
  samples there are. On the example buffer the pass gives the grains \<open>[0, 1500)\<close> and
  \<open>[1500, 3000)\<close>, and samples 0 and 1 are both 1.
\<close>

theorem first_grain_starts_at_crossing_counterexample:
  "preproc (\<lambda>s. 1500) twoGrainData
     = Some (Inr [\<lparr>startSample = 0, spanLen = 1500, drift = 0\<rparr>,
                  \<lparr>startSample = 1500, spanLen = 1500, drift = 0\<rparr>])
   \<and> \<not> zeroCrossingAt twoGrainData
         (startSample \<lparr>startSample = 0, spanLen = 1500, drift = 0\<rparr>)"
proof
  show "preproc (\<lambda>s. 1500) twoGrainData
     = Some (Inr [\<lparr>startSample = 0, spanLen = 1500, drift = 0\<rparr>,
                  \<lparr>startSample = 1500, spanLen = 1500, drift = 0\<rparr>])"
    by (rule twoGrainData_run)
  have "\<not> twoGrainData ! nat 0 < 0"
    by (simp add: twoGrainData_samples)
  then show "\<not> zeroCrossingAt twoGrainData
         (startSample \<lparr>startSample = 0, spanLen = 1500, drift = 0\<rparr>)"
    by (simp add: zeroCrossingAt_def)
qed

text \<open>
  Claim C1, amended: when the grain-size estimates are positive, a segmentation pass
  ends, and if it ends without reading outside the buffer then every grain ends at a
  true zero-crossing, consecutive grains are contiguous, every grain but the first
  starts at a true zero-crossing, and the first grain starts at sample 0.
\<close>

theorem segmentation_grains_chain:
  assumes "\<forall>s. 1 \<le> est s"
  shows "preproc est data \<noteq> None
       \<and> (\<forall>gs. preproc est data = Some (Inr gs) \<longrightarrow>
            (\<forall>i<length gs. zeroCrossingAt data (startSample (gs ! i) + spanLen (gs ! i)))
          \<and> (\<forall>i. Suc i < length gs \<longrightarrow>
                 startSample (gs ! Suc i) = startSample (gs ! i) + spanLen (gs ! i))
          \<and> (\<forall>i. 0 < i \<and> i < length gs \<longrightarrow> zeroCrossingAt data (startSample (gs ! i)))
          \<and> (gs \<noteq> [] \<longrightarrow> startSample (hd gs) = 0))"
proof (rule conjI)
  from assms have "1 \<le> est 0" by simp
  then show "preproc est data \<noteq> None"
    unfolding preproc_def by (intro preprocLoop_total assms) simp_all
next
  have "(\<forall>i<length gs. zeroCrossingAt data (startSample (gs ! i) + spanLen (gs ! i)))
          \<and> (\<forall>i. Suc i < length gs \<longrightarrow>
                 startSample (gs ! Suc i) = startSample (gs ! i) + spanLen (gs ! i))
          \<and> (\<forall>i. 0 < i \<and> i < length gs \<longrightarrow> zeroCrossingAt data (startSample (gs ! i)))
          \<and> (gs \<noteq> [] \<longrightarrow> startSample (hd gs) = 0)"
    if run: "preproc est data = Some (Inr gs)" for gs
  proof -
    from assms have e0: "1 \<le> est 0" by simp
    have c0: "grainChain data 0 []" "0 = chainEnd 0 []" by simp_all
    have chain: "grainChain data 0 gs"
      by (rule preprocLoop_chain[OF run[unfolded preproc_def] c0 assms e0])
    have ends: "zeroCrossingAt data (startSample (gs ! i) + spanLen (gs ! i))"
      if "i < length gs" for i
      using that by (rule grainChain_ends[OF chain])
    have contig: "startSample (gs ! Suc i) = startSample (gs ! i) + spanLen (gs ! i)"
      if "Suc i < length gs" for i
      using that by (rule grainChain_contiguous[OF chain])
    have starts: "zeroCrossingAt data (startSample (gs ! i))" if i: "0 < i \<and> i < length gs" for i
    proof -
      from i obtain j where j: "i = Suc j" by (cases i) auto
      with i have "j < length gs" "Suc j < length gs" by simp_all
      from ends[OF this(1)] contig[OF this(2)] j show ?thesis by simp
    qed
    have first: "startSample (hd gs) = 0" if "gs \<noteq> []"
      using that by (rule grainChain_hd[OF chain])
    from ends contig starts first show ?thesis by (intro conjI allI impI)
  qed
  then show "\<forall>gs. preproc est data = Some (Inr gs) \<longrightarrow>
            (\<forall>i<length gs. zeroCrossingAt data (startSample (gs ! i) + spanLen (gs ! i)))
          \<and> (\<forall>i. Suc i < length gs \<longrightarrow>
                 startSample (gs ! Suc i) = startSample (gs ! i) + spanLen (gs ! i))
          \<and> (\<forall>i. 0 < i \<and> i < length gs \<longrightarrow> zeroCrossingAt data (startSample (gs ! i)))
          \<and> (gs \<noteq> [] \<longrightarrow> startSample (hd gs) = 0)"
    by (intro allI impI)
qed

theorem segmentation_grains_chain_witness:
  "(\<forall>s. (1::int) \<le> (\<lambda>s. 1500) s)
   \<and> preproc (\<lambda>s. 1500) twoGrainData
       = Some (Inr [\<lparr>startSample = 0, spanLen = 1500, drift = 0\<rparr>,
                    \<lparr>startSample = 1500, spanLen = 1500, drift = 0\<rparr>])
   \<and> zeroCrossingAt twoGrainData 1500 \<and> zeroCrossingAt twoGrainData 3000"
proof -
  let ?gs = "[\<lparr>startSample = 0, spanLen = 1500, drift = 0\<rparr>,
              \<lparr>startSample = 1500, spanLen = 1500, drift = 0\<rparr>]"
  have h: "\<forall>s. (1::int) \<le> (\<lambda>s. 1500) s" by simp
  have run: "preproc (\<lambda>s. 1500) twoGrainData = Some (Inr ?gs)"
    by (rule twoGrainData_run)
  note t = segmentation_grains_chain[OF h, of twoGrainData]
  have ends: "\<forall>i<length ?gs. zeroCrossingAt twoGrainData
                                (startSample (?gs ! i) + spanLen (?gs ! i))"
    by (rule t[THEN conjunct2, rule_format, OF run, THEN conjunct1])
  from ends[rule_format, of 0] have a: "zeroCrossingAt twoGrainData 1500" by simp
  from ends[rule_format, of 1] have b: "zeroCrossingAt twoGrainData 3000" by simp
  from h run a b show ?thesis by (intro conjI)
qed

end
